theory Spec2Isabelle
  imports Main
begin

section \<open>Identifiers, principals and errors\<close>

text \<open>
  The persistence layer is a document store with ObjectId-like identifiers. An
  identifier is a natural number here; a collection is the list of its documents in
  insertion order, \<open>findOne\<close> returns the first document that matches and
  \<open>findByIdAndUpdate\<close> rewrites the first document with the given id. The store
  hands out fresh identifiers from the counter \<open>next_oid\<close>. \<open>new Date()\<close> is the
  parameter \<open>now\<close> of every operation that reads the clock.
\<close>

type_synonym oid = nat
type_synonym date = nat

datatype UserRole = ROLE_ADMIN | ROLE_PARENT

text \<open>
  The acting principal is the object the authentication layer attaches to a request
  or a socket. The services read its \<open>id\<close>, \<open>sub\<close>, \<open>_id\<close>, \<open>type\<close> and
  \<open>role\<close> fields, each of which may be absent.
\<close>

record principal =
  p_id :: "oid option"
  p_sub :: "oid option"
  p_uid :: "oid option"
  p_type :: string
  p_role :: "UserRole option"

datatype error =
    NotFoundException string
  | ForbiddenException string
  | BadRequestException string
  | TypeError string

fun error_message :: "error \<Rightarrow> string" where
  "error_message (NotFoundException m) = m"
| "error_message (ForbiddenException m) = m"
| "error_message (BadRequestException m) = m"
| "error_message (TypeError m) = m"

text \<open>\<open>getUserId\<close>: \<open>user.id || user.sub || user._id?.toString() || user._id\<close>.\<close>

definition getUserId :: "principal \<Rightarrow> oid option" where
  "getUserId user =
     (case p_id user of
        Some i \<Rightarrow> Some i
      | None \<Rightarrow> (case p_sub user of Some i \<Rightarrow> Some i | None \<Rightarrow> p_uid user))"

section \<open>Documents\<close>

datatype SenderModel = User | Child

datatype MessageType = TEXT | AUDIO | CALL_OFFER | CALL_ANSWER | ICE_CANDIDATE

record last_message =
  lm_text :: "string option"
  lm_senderModel :: SenderModel
  lm_senderId :: oid
  lm_createdAt :: date

record room =
  room_id :: oid
  room_parent :: oid
  room_child :: oid
  invitedParents :: "oid list"
  isActive :: bool
  lastMessage :: "last_message option"

record audio =
  url :: string
  durationSec :: "nat option"
  mimeType :: "string option"
  sizeBytes :: "nat option"
  cloudinaryPublicId :: "string option"

text \<open>A signalling payload is a \<open>Record<string, any>\<close>: an association list of its keys.\<close>

type_synonym signal_payload = "(string \<times> string) list"

record message =
  msg_id :: oid
  msg_room :: oid
  msg_senderModel :: SenderModel
  msg_senderId :: oid
  msg_type :: MessageType
  msg_text :: "string option"
  msg_audio :: "audio option"
  msg_signalingPayload :: "signal_payload option"
  msg_createdAt :: date

record child_doc =
  child_id :: oid
  child_parent :: oid
  linkedParents :: "oid list"
  firstName :: string
  lastName :: string
  location :: "string option"

record user_doc =
  user_id :: oid
  user_role :: UserRole
  user_phoneNumber :: "string option"

datatype SosAlertStatus =
    PENDING
  | CALLING_PARENT
  | PARENT_ANSWERED
  | PARENT_NO_ANSWER
  | CALLING_EMERGENCY
  | EMERGENCY_CALLED
  | RESOLVED
  | CANCELLED

datatype CallType = PARENT | EMERGENCY

text \<open>
  The call identifiers the service writes: \<open>SOS_CALL_<alert id>\<close>,
  \<open>SOS_CALL_RETRY_<n>\<close> and \<open>PHONE_DIALER_196\<close>.
\<close>

datatype call_sid = SOS_CALL oid | SOS_CALL_RETRY int | PHONE_DIALER_196

record call_entry =
  callSid :: call_sid
  phoneNumber :: string
  callType :: CallType
  call_status :: string
  answered :: bool
  call_timestamp :: date

record alert_metadata =
  meta_roomId :: oid
  childLocation :: "string option"
  triggeredAt :: date

record SosAlert =
  alert_id :: oid
  alert_child :: oid
  alert_parent :: oid
  status :: SosAlertStatus
  parentCallAttempts :: int
  emergencyCallAttempts :: int
  callHistory :: "call_entry list"
  resolvedAt :: "date option"
  resolvedBy :: "oid option"
  metadata :: alert_metadata

record db =
  rooms :: "room list"
  messages :: "message list"
  children :: "child_doc list"
  users :: "user_doc list"
  sosAlerts :: "SosAlert list"
  next_oid :: oid

definition findById :: "('a \<Rightarrow> oid) \<Rightarrow> 'a list \<Rightarrow> oid \<Rightarrow> 'a option" where
  "findById key xs i = find (\<lambda>x. key x = i) xs"

fun updateFirst :: "('a \<Rightarrow> bool) \<Rightarrow> ('a \<Rightarrow> 'a) \<Rightarrow> 'a list \<Rightarrow> 'a list" where
  "updateFirst P f [] = []"
| "updateFirst P f (x # xs) = (if P x then f x # xs else x # updateFirst P f xs)"

definition findByIdAndUpdate :: "('a \<Rightarrow> oid) \<Rightarrow> oid \<Rightarrow> ('a \<Rightarrow> 'a) \<Rightarrow> 'a list \<Rightarrow> 'a list" where
  "findByIdAndUpdate key i f xs = updateFirst (\<lambda>x. key x = i) f xs"

section \<open>The SOS escalation service\<close>

text \<open>
  What the service sends through the gateway's server handle (\<open>server.emit(name, payload)\<close>):
  the event name with the id it is addressed to, and the payload's fields.
  \<open>Emit_room_SOS_CALL_OFFER r roomId senderId alertId retry t\<close> is the event
  \<open>room:r\<close> with a payload of type \<open>SOS_CALL_OFFER\<close> (\<open>retry\<close> is the number the
  retry message carries); \<open>Emit_sos_call p roomId alertId childId childName t\<close> is
  \<open>sos-call:p\<close>; \<open>Emit_sos_emergency c alertId phoneNumber t\<close> is \<open>sos-emergency:c\<close>
  with action \<open>OPEN_PHONE_DIALER\<close>; \<open>Emit_sos_resolved c alertId t\<close> is
  \<open>sos-resolved:c\<close>. The human-readable \<open>message\<close> field of each payload is left out.
\<close>

datatype sos_emission =
    Emit_room_SOS_CALL_OFFER oid oid oid oid "int option" date
  | Emit_sos_call oid oid oid oid string date
  | Emit_sos_emergency oid oid string date
  | Emit_sos_resolved oid oid date

text \<open>A timer set with \<open>setTimeout\<close>: the delay, and the arguments of \<open>checkCallStatus\<close>.\<close>

type_synonym timer = "nat \<times> oid \<times> oid"

text \<open>
  The outcome of a service call: the store afterwards, the notifications emitted, the
  timers scheduled, and the value returned or the exception thrown. An exception can
  be thrown after the store has been written, so the store is part of every outcome.
\<close>

record 'a outcome =
  out_db :: db
  emitted :: "sos_emission list"
  timers :: "timer list"
  returned :: "error + 'a"

definition throw :: "db \<Rightarrow> error \<Rightarrow> 'a outcome" where
  "throw s e = \<lparr>out_db = s, emitted = [], timers = [], returned = Inl e\<rparr>"

definition MAX_PARENT_CALL_ATTEMPTS :: int where
  "MAX_PARENT_CALL_ATTEMPTS = 2"

definition EMERGENCY_NUMBER :: string where
  "EMERGENCY_NUMBER = ''196''"

text \<open>The status filter of the active-alert query.\<close>

definition isActiveStatus :: "SosAlertStatus \<Rightarrow> bool" where
  "isActiveStatus st = (st = PENDING \<or> st = CALLING_PARENT \<or> st = CALLING_EMERGENCY)"

definition findActiveAlert :: "db \<Rightarrow> oid \<Rightarrow> SosAlert option" where
  "findActiveAlert s childId =
     find (\<lambda>a. alert_child a = childId \<and> isActiveStatus (status a)) (sosAlerts s)"

definition orNA :: "string option \<Rightarrow> string" where
  "orNA p = (case p of None \<Rightarrow> ''N/A'' | Some n \<Rightarrow> (if n = [] then ''N/A'' else n))"

definition triggerSos :: "db \<Rightarrow> date \<Rightarrow> oid \<Rightarrow> principal \<Rightarrow> (SosAlert \<times> oid \<times> string) outcome" where
  "triggerSos s now childId currentUser =
     (if p_type currentUser \<noteq> ''child'' then
        throw s (ForbiddenException ''Only children can trigger SOS alerts'')
      else if getUserId currentUser \<noteq> Some childId then
        throw s (ForbiddenException ''You can only trigger SOS for yourself'')
      else
        (case findById child_id (children s) childId of
           None \<Rightarrow> throw s (NotFoundException ''Child not found'')
         | Some child \<Rightarrow>
             (case findById user_id (users s) (child_parent child) of
                None \<Rightarrow> throw s (NotFoundException ''Parent not found'')
              | Some parent \<Rightarrow>
                  (case find (\<lambda>r. room_parent r = child_parent child \<and> room_child r = childId \<and> isActive r)
                          (rooms s) of
                     None \<Rightarrow> throw s (NotFoundException
                       ''Chat room not found. Please ensure room exists between parent and child.'')
                   | Some room \<Rightarrow>
                       (case findActiveAlert s childId of
                          Some activeAlert \<Rightarrow>
                            \<lparr>out_db = s, emitted = [], timers = [],
                             returned = Inr (activeAlert, room_id room, ''CALL_INITIATED'')\<rparr>
                        | None \<Rightarrow>
                            (let sosAlert =
                                   \<lparr>alert_id = next_oid s,
                                    alert_child = childId,
                                    alert_parent = user_id parent,
                                    status = CALLING_PARENT,
                                    parentCallAttempts = 1,
                                    emergencyCallAttempts = 0,
                                    callHistory = [],
                                    resolvedAt = None,
                                    resolvedBy = None,
                                    metadata = \<lparr>meta_roomId = room_id room,
                                                childLocation = location child,
                                                triggeredAt = now\<rparr>\<rparr>;
                                 s1 = s\<lparr>sosAlerts := sosAlerts s @ [sosAlert],
                                        next_oid := Suc (next_oid s)\<rparr>;
                                 childName = firstName child @ '' '' @ lastName child;
                                 s2 = s1\<lparr>sosAlerts :=
                                        findByIdAndUpdate alert_id (alert_id sosAlert)
                                          (\<lambda>a. a\<lparr>callHistory := callHistory a @
                                             [\<lparr>callSid = SOS_CALL (alert_id sosAlert),
                                               phoneNumber = orNA (user_phoneNumber parent),
                                               callType = PARENT,
                                               call_status = ''initiated'',
                                               answered = False,
                                               call_timestamp = now\<rparr>]\<rparr>)
                                          (sosAlerts s1)\<rparr>
                             in \<lparr>out_db = s2,
                                 emitted =
                                   [Emit_room_SOS_CALL_OFFER (room_id room) (room_id room) childId
                                      (alert_id sosAlert) None now,
                                    Emit_sos_call (user_id parent) (room_id room) (alert_id sosAlert)
                                      childId childName now],
                                 timers = [(30000, alert_id sosAlert, room_id room)],
                                 returned = Inr (sosAlert, room_id room, ''CALL_INITIATED'')\<rparr>))))))"


text \<open>
  \<open>callEmergency\<close>: skipped for a resolved or cancelled alert. The alert is loaded with
  its child populated; a child that no longer exists populates as null, and reading
  its \<open>_id\<close> throws after the first update has been written.
\<close>

definition callEmergency :: "db \<Rightarrow> date \<Rightarrow> oid \<Rightarrow> unit outcome" where
  "callEmergency s now alertId =
     (case findById alert_id (sosAlerts s) alertId of
        None \<Rightarrow> \<lparr>out_db = s, emitted = [], timers = [], returned = Inr ()\<rparr>
      | Some alert \<Rightarrow>
          if status alert = RESOLVED \<or> status alert = CANCELLED then
            \<lparr>out_db = s, emitted = [], timers = [], returned = Inr ()\<rparr>
          else
            (let s1 = s\<lparr>sosAlerts :=
                        findByIdAndUpdate alert_id alertId
                          (\<lambda>a. a\<lparr>status := CALLING_EMERGENCY,
                                 emergencyCallAttempts := emergencyCallAttempts a + 1\<rparr>)
                          (sosAlerts s)\<rparr>
             in (case findById child_id (children s) (alert_child alert) of
                   None \<Rightarrow> throw s1 (TypeError ''Cannot read properties of null (reading '_id')'')
                 | Some child \<Rightarrow>
                     (let s2 = s1\<lparr>sosAlerts :=
                                 findByIdAndUpdate alert_id alertId
                                   (\<lambda>a. a\<lparr>status := EMERGENCY_CALLED,
                                          callHistory := callHistory a @
                                            [\<lparr>callSid = PHONE_DIALER_196,
                                              phoneNumber = EMERGENCY_NUMBER,
                                              callType = EMERGENCY,
                                              call_status = ''dialer_opened'',
                                              answered = False,
                                              call_timestamp = now\<rparr>]\<rparr>)
                                   (sosAlerts s1)\<rparr>
                      in \<lparr>out_db = s2,
                          emitted = [Emit_sos_emergency (child_id child) alertId EMERGENCY_NUMBER now],
                          timers = [],
                          returned = Inr ()\<rparr>))))"

text \<open>
  \<open>checkCallStatus\<close>, the body of the timer. In the retry branch the child is loaded
  after the update and its name is read without a null check.
\<close>

definition checkCallStatus :: "db \<Rightarrow> date \<Rightarrow> oid \<Rightarrow> oid \<Rightarrow> unit outcome" where
  "checkCallStatus s now alertId roomId =
     (case findById alert_id (sosAlerts s) alertId of
        None \<Rightarrow> \<lparr>out_db = s, emitted = [], timers = [], returned = Inr ()\<rparr>
      | Some alert \<Rightarrow>
          if status alert = RESOLVED \<or> status alert = CANCELLED \<or> status alert = PARENT_ANSWERED then
            \<lparr>out_db = s, emitted = [], timers = [], returned = Inr ()\<rparr>
          else if parentCallAttempts alert < MAX_PARENT_CALL_ATTEMPTS then
            (let s1 = s\<lparr>sosAlerts :=
                        findByIdAndUpdate alert_id alertId
                          (\<lambda>a. a\<lparr>parentCallAttempts := parentCallAttempts a + 1,
                                 callHistory := callHistory a @
                                   [\<lparr>callSid = SOS_CALL_RETRY (parentCallAttempts alert + 1),
                                     phoneNumber = ''N/A'',
                                     callType = PARENT,
                                     call_status = ''retry'',
                                     answered = False,
                                     call_timestamp = now\<rparr>]\<rparr>)
                          (sosAlerts s)\<rparr>
             in (case findById child_id (children s1) (alert_child alert) of
                   None \<Rightarrow> throw s1 (TypeError ''Cannot read properties of null (reading 'firstName')'')
                 | Some child \<Rightarrow>
                     \<lparr>out_db = s1,
                      emitted = [Emit_room_SOS_CALL_OFFER roomId roomId (alert_child alert) alertId
                                   (Some (parentCallAttempts alert + 1)) now],
                      timers = [(30000, alertId, roomId)],
                      returned = Inr ()\<rparr>))
          else callEmergency s now alertId)"

text \<open>
  \<open>markParentAnswered\<close>. The alert is loaded with its parent populated. The update
  sets \<open>callHistory.$[elem].answered\<close> and \<open>callHistory.$[elem].status\<close> under the
  array filter \<open>elem.callType = PARENT, elem.answered = false\<close>: the filtered positional
  operator rewrites every element of the array that matches the filter.
\<close>

definition markAnswered :: "call_entry \<Rightarrow> call_entry" where
  "markAnswered e =
     (if callType e = PARENT \<and> answered e = False
      then e\<lparr>answered := True, call_status := ''answered''\<rparr> else e)"

definition markParentAnswered :: "db \<Rightarrow> date \<Rightarrow> oid \<Rightarrow> principal \<Rightarrow> (SosAlert option) outcome" where
  "markParentAnswered s now alertId currentUser =
     (case findById alert_id (sosAlerts s) alertId of
        None \<Rightarrow> throw s (NotFoundException ''SOS alert not found'')
      | Some alert \<Rightarrow>
          (case findById user_id (users s) (alert_parent alert) of
             None \<Rightarrow> throw s (TypeError ''Cannot read properties of null (reading '_id')'')
           | Some parent \<Rightarrow>
               if getUserId currentUser \<noteq> Some (user_id parent) then
                 throw s (ForbiddenException ''Only the parent can mark themselves as answered'')
               else
                 (let s1 = s\<lparr>sosAlerts :=
                             findByIdAndUpdate alert_id alertId
                               (\<lambda>a. a\<lparr>status := PARENT_ANSWERED,
                                      resolvedAt := Some now,
                                      resolvedBy := Some (user_id parent),
                                      callHistory := map markAnswered (callHistory a)\<rparr>)
                               (sosAlerts s)\<rparr>
                  in \<lparr>out_db = s1,
                      emitted =
                        (case findById child_id (children s1) (alert_child alert) of
                           None \<Rightarrow> []
                         | Some child \<Rightarrow> [Emit_sos_resolved (alert_child alert) alertId now]),
                      timers = [],
                      returned = Inr (findById alert_id (sosAlerts s1) alertId)\<rparr>)))"

text \<open>
  \<open>resolveAlert\<close>: the child itself, the child's parent or linked parent, or an
  admin. The alert is loaded with its child populated; the child is read in the
  child branch and in the branch of a user who is no admin, and a child that no
  longer exists throws there. The update sets \<open>resolvedBy\<close> to the caller's id; a
  caller without an id leaves the stored value as it is.
\<close>

definition resolveAlert :: "db \<Rightarrow> date \<Rightarrow> oid \<Rightarrow> principal \<Rightarrow> (SosAlert option) outcome" where
  "resolveAlert s now alertId currentUser =
     (case findById alert_id (sosAlerts s) alertId of
        None \<Rightarrow> throw s (NotFoundException ''SOS alert not found'')
      | Some alert \<Rightarrow>
          (let userId = getUserId currentUser;
               child = findById child_id (children s) (alert_child alert);
               denied =
                 (if p_type currentUser = ''child'' then
                    (case child of
                       None \<Rightarrow> Some (TypeError ''Cannot read properties of null (reading '_id')'')
                     | Some c \<Rightarrow>
                         if Some (child_id c) \<noteq> userId then
                           Some (ForbiddenException ''You can only resolve your own SOS alerts'')
                         else None)
                  else if p_role currentUser \<noteq> Some ROLE_ADMIN then
                    (case child of
                       None \<Rightarrow> Some (TypeError ''Cannot read properties of null (reading 'parent')'')
                     | Some c \<Rightarrow>
                         if userId \<noteq> Some (child_parent c) \<and>
                            \<not> list_ex (\<lambda>p. Some p = userId) (linkedParents c) then
                           Some (ForbiddenException ''You can only resolve SOS alerts for your children'')
                         else None)
                  else None)
           in (case denied of
                 Some e \<Rightarrow> throw s e
               | None \<Rightarrow>
                   (let s1 = s\<lparr>sosAlerts :=
                               findByIdAndUpdate alert_id alertId
                                 (\<lambda>a. a\<lparr>status := RESOLVED,
                                        resolvedAt := Some now,
                                        resolvedBy := (case userId of
                                                         None \<Rightarrow> resolvedBy a
                                                       | Some by_user \<Rightarrow> Some by_user)\<rparr>)
                                 (sosAlerts s)\<rparr>
                    in \<lparr>out_db = s1, emitted = [], timers = [],
                        returned = Inr (findById alert_id (sosAlerts s1) alertId)\<rparr>))))"

subsection \<open>The service call in its phases\<close>

text \<open>
  The handlers are asynchronous: a call gives way to other calls at every
  \<open>await\<close>, and what it has read stays in its local variables. \<open>triggerSos\<close>
  first reads (the checks on the caller, the child, the parent, the room and the
  active-alert query) and later writes; \<open>triggerSos_lookup\<close> is the reading part
  and \<open>triggerSos_create\<close> the writing part, run on the store as it is when the
  call gets there. \<open>checkCallStatus_loaded\<close> is \<open>checkCallStatus\<close> from the
  point where its alert has been loaded: the tests read the loaded alert, the
  writes and \<open>callEmergency\<close>, which loads the alert again, meet the store as it
  is by then.
\<close>

definition triggerSos_lookup ::
  "db \<Rightarrow> oid \<Rightarrow> principal \<Rightarrow> error + (child_doc \<times> user_doc \<times> room \<times> SosAlert option)" where
  "triggerSos_lookup s childId currentUser =
     (if p_type currentUser \<noteq> ''child'' then
        Inl (ForbiddenException ''Only children can trigger SOS alerts'')
      else if getUserId currentUser \<noteq> Some childId then
        Inl (ForbiddenException ''You can only trigger SOS for yourself'')
      else
        (case findById child_id (children s) childId of
           None \<Rightarrow> Inl (NotFoundException ''Child not found'')
         | Some child \<Rightarrow>
             (case findById user_id (users s) (child_parent child) of
                None \<Rightarrow> Inl (NotFoundException ''Parent not found'')
              | Some parent \<Rightarrow>
                  (case find (\<lambda>r. room_parent r = child_parent child \<and> room_child r = childId \<and> isActive r)
                          (rooms s) of
                     None \<Rightarrow> Inl (NotFoundException
                       ''Chat room not found. Please ensure room exists between parent and child.'')
                   | Some room \<Rightarrow> Inr (child, parent, room, findActiveAlert s childId)))))"

definition triggerSos_create ::
  "db \<Rightarrow> date \<Rightarrow> oid \<Rightarrow> child_doc \<Rightarrow> user_doc \<Rightarrow> room \<Rightarrow> (SosAlert \<times> oid \<times> string) outcome" where
  "triggerSos_create s now childId child parent room =
     (let sosAlert =
            \<lparr>alert_id = next_oid s,
             alert_child = childId,
             alert_parent = user_id parent,
             status = CALLING_PARENT,
             parentCallAttempts = 1,
             emergencyCallAttempts = 0,
             callHistory = [],
             resolvedAt = None,
             resolvedBy = None,
             metadata = \<lparr>meta_roomId = room_id room,
                         childLocation = location child,
                         triggeredAt = now\<rparr>\<rparr>;
          s1 = s\<lparr>sosAlerts := sosAlerts s @ [sosAlert],
                 next_oid := Suc (next_oid s)\<rparr>;
          childName = firstName child @ '' '' @ lastName child;
          s2 = s1\<lparr>sosAlerts :=
                 findByIdAndUpdate alert_id (alert_id sosAlert)
                   (\<lambda>a. a\<lparr>callHistory := callHistory a @
                      [\<lparr>callSid = SOS_CALL (alert_id sosAlert),
                        phoneNumber = orNA (user_phoneNumber parent),
                        callType = PARENT,
                        call_status = ''initiated'',
                        answered = False,
                        call_timestamp = now\<rparr>]\<rparr>)
                   (sosAlerts s1)\<rparr>
      in \<lparr>out_db = s2,
          emitted =
            [Emit_room_SOS_CALL_OFFER (room_id room) (room_id room) childId
               (alert_id sosAlert) None now,
             Emit_sos_call (user_id parent) (room_id room) (alert_id sosAlert)
               childId childName now],
          timers = [(30000, alert_id sosAlert, room_id room)],
          returned = Inr (sosAlert, room_id room, ''CALL_INITIATED'')\<rparr>)"

definition checkCallStatus_loaded :: "db \<Rightarrow> date \<Rightarrow> oid \<Rightarrow> oid \<Rightarrow> SosAlert \<Rightarrow> unit outcome" where
  "checkCallStatus_loaded s now alertId roomId alert =
     (if status alert = RESOLVED \<or> status alert = CANCELLED \<or> status alert = PARENT_ANSWERED then
        \<lparr>out_db = s, emitted = [], timers = [], returned = Inr ()\<rparr>
      else if parentCallAttempts alert < MAX_PARENT_CALL_ATTEMPTS then
        (let s1 = s\<lparr>sosAlerts :=
                    findByIdAndUpdate alert_id alertId
                      (\<lambda>a. a\<lparr>parentCallAttempts := parentCallAttempts a + 1,
                             callHistory := callHistory a @
                               [\<lparr>callSid = SOS_CALL_RETRY (parentCallAttempts alert + 1),
                                 phoneNumber = ''N/A'',
                                 callType = PARENT,
                                 call_status = ''retry'',
                                 answered = False,
                                 call_timestamp = now\<rparr>]\<rparr>)
                      (sosAlerts s)\<rparr>
         in (case findById child_id (children s1) (alert_child alert) of
               None \<Rightarrow> throw s1 (TypeError ''Cannot read properties of null (reading 'firstName')'')
             | Some child \<Rightarrow>
                 \<lparr>out_db = s1,
                  emitted = [Emit_room_SOS_CALL_OFFER roomId roomId (alert_child alert) alertId
                               (Some (parentCallAttempts alert + 1)) now],
                  timers = [(30000, alertId, roomId)],
                  returned = Inr ()\<rparr>))
      else callEmergency s now alertId)"

section \<open>Room access control\<close>

text \<open>\<open>getChildId\<close>: the id of the room's child, populated or not.\<close>

definition getChildId :: "room \<Rightarrow> oid" where
  "getChildId r = room_child r"

text \<open>
  \<open>assertRoomAccess\<close>. Without an id, \<open>userId.toString()\<close> throws in the child
  branch, and \<open>new Types.ObjectId(undefined)\<close> is a fresh id in the parent branch,
  equal to no stored one.
\<close>

definition assertRoomAccess :: "room \<Rightarrow> principal \<Rightarrow> error + unit" where
  "assertRoomAccess r currentUser =
     (if p_role currentUser = Some ROLE_ADMIN then Inr ()
      else
        (let userId = getUserId currentUser in
         if p_type currentUser = ''child'' then
           (case userId of
              None \<Rightarrow> Inl (TypeError ''Cannot read properties of undefined (reading 'toString')'')
            | Some userChildId \<Rightarrow>
                if getChildId r \<noteq> userChildId then
                  Inl (ForbiddenException ''You can only access your own room'')
                else Inr ())
         else
           (let isMainParent = (Some (room_parent r) = userId);
                isInvitedParent = list_ex (\<lambda>p. Some p = userId) (invitedParents r)
            in if \<not> isMainParent \<and> \<not> isInvitedParent then
                 Inl (ForbiddenException
                   ''You can only access rooms with your children or rooms you are invited to'')
               else Inr ())))"

definition isRoomParticipant :: "room \<Rightarrow> SenderModel \<Rightarrow> oid \<Rightarrow> bool" where
  "isRoomParticipant r senderModel senderId =
     (if senderModel = Child then getChildId r = senderId
      else
        (let isMainParent = (room_parent r = senderId);
             isInvitedParent = list_ex (\<lambda>p. p = senderId) (invitedParents r)
         in isMainParent \<or> isInvitedParent))"

definition validateSender :: "db \<Rightarrow> room \<Rightarrow> SenderModel \<Rightarrow> oid \<Rightarrow> error + unit" where
  "validateSender s r senderModel senderId =
     (if senderModel = Child then
        (if getChildId r \<noteq> senderId then
           Inl (ForbiddenException ''senderId must match the child in this room'')
         else Inr ())
      else
        (let isMainParent = (room_parent r = senderId);
             isInvitedParent = list_ex (\<lambda>p. p = senderId) (invitedParents r)
         in if isMainParent \<or> isInvitedParent then Inr ()
            else
              (case findById child_id (children s) (getChildId r) of
                 Some childDoc \<Rightarrow>
                   if list_ex (\<lambda>p. p = senderId) (linkedParents childDoc) then Inr ()
                   else Inl (ForbiddenException
                     ''senderId must be the main parent, an invited parent, or a linked parent of the child in this room'')
               | None \<Rightarrow> Inl (ForbiddenException
                     ''senderId must be the main parent, an invited parent, or a linked parent of the child in this room''))))"

section \<open>The message pipeline\<close>

text \<open>
  A send loads the room, checks the actor and the sender, inserts the message and,
  for text and audio, rewrites the room's \<open>lastMessage\<close>. Every exception of a
  send is thrown before its first write, so a failed send is the exception alone.
  The message schema's own validation is outside this model.
\<close>

record SendTextDto =
  t_roomId :: oid
  t_text :: "string option"
  t_senderModel :: SenderModel
  t_senderId :: oid

record SendAudioDto =
  a_roomId :: oid
  a_senderModel :: SenderModel
  a_senderId :: oid
  a_audio :: audio

record SendSignalDto =
  g_roomId :: oid
  g_senderModel :: SenderModel
  g_senderId :: oid
  g_type :: string
  g_payload :: signal_payload

definition setLastMessage :: "oid \<Rightarrow> last_message option \<Rightarrow> room list \<Rightarrow> room list" where
  "setLastMessage roomId lm rs = findByIdAndUpdate room_id roomId (\<lambda>r. r\<lparr>lastMessage := lm\<rparr>) rs"

definition sendText :: "db \<Rightarrow> date \<Rightarrow> SendTextDto \<Rightarrow> principal \<Rightarrow> error + (message \<times> db)" where
  "sendText s now dto currentUser =
     (case findById room_id (rooms s) (t_roomId dto) of
        None \<Rightarrow> Inl (NotFoundException ''Room not found'')
      | Some r \<Rightarrow>
          (case assertRoomAccess r currentUser of
             Inl e \<Rightarrow> Inl e
           | Inr _ \<Rightarrow>
               (case validateSender s r (t_senderModel dto) (t_senderId dto) of
                  Inl e \<Rightarrow> Inl e
                | Inr _ \<Rightarrow>
                    (let msg = \<lparr>msg_id = next_oid s,
                                msg_room = room_id r,
                                msg_senderModel = t_senderModel dto,
                                msg_senderId = t_senderId dto,
                                msg_type = TEXT,
                                msg_text = t_text dto,
                                msg_audio = None,
                                msg_signalingPayload = None,
                                msg_createdAt = now\<rparr>;
                         s1 = s\<lparr>messages := messages s @ [msg], next_oid := Suc (next_oid s)\<rparr>;
                         s2 = s1\<lparr>rooms :=
                                setLastMessage (room_id r)
                                  (Some \<lparr>lm_text = t_text dto,
                                         lm_senderModel = t_senderModel dto,
                                         lm_senderId = msg_senderId msg,
                                         lm_createdAt = now\<rparr>)
                                  (rooms s1)\<rparr>
                     in Inr (msg, s2)))))"

definition sendAudio :: "db \<Rightarrow> date \<Rightarrow> SendAudioDto \<Rightarrow> principal \<Rightarrow> error + (message \<times> db)" where
  "sendAudio s now dto currentUser =
     (case findById room_id (rooms s) (a_roomId dto) of
        None \<Rightarrow> Inl (NotFoundException ''Room not found'')
      | Some r \<Rightarrow>
          (case assertRoomAccess r currentUser of
             Inl e \<Rightarrow> Inl e
           | Inr _ \<Rightarrow>
               (case validateSender s r (a_senderModel dto) (a_senderId dto) of
                  Inl e \<Rightarrow> Inl e
                | Inr _ \<Rightarrow>
                    (let msg = \<lparr>msg_id = next_oid s,
                                msg_room = room_id r,
                                msg_senderModel = a_senderModel dto,
                                msg_senderId = a_senderId dto,
                                msg_type = AUDIO,
                                msg_text = None,
                                msg_audio = Some (a_audio dto),
                                msg_signalingPayload = None,
                                msg_createdAt = now\<rparr>;
                         s1 = s\<lparr>messages := messages s @ [msg], next_oid := Suc (next_oid s)\<rparr>;
                         s2 = s1\<lparr>rooms :=
                                setLastMessage (room_id r)
                                  (Some \<lparr>lm_text = Some ''[Audio]'',
                                         lm_senderModel = a_senderModel dto,
                                         lm_senderId = msg_senderId msg,
                                         lm_createdAt = now\<rparr>)
                                  (rooms s1)\<rparr>
                     in Inr (msg, s2)))))"

text \<open>
  \<open>sendSignal\<close>. The signal type is checked against the three names and then looked
  up in \<open>MessageType\<close>; \<open>!dto.payload.sdp\<close> holds when the key is absent or empty.
\<close>

definition signalType :: "string \<Rightarrow> MessageType option" where
  "signalType ty =
     (if ty = ''CALL_OFFER'' then Some CALL_OFFER
      else if ty = ''CALL_ANSWER'' then Some CALL_ANSWER
      else if ty = ''ICE_CANDIDATE'' then Some ICE_CANDIDATE
      else None)"

definition truthy :: "string option \<Rightarrow> bool" where
  "truthy v = (case v of None \<Rightarrow> False | Some x \<Rightarrow> x \<noteq> [])"

definition sendSignal :: "db \<Rightarrow> date \<Rightarrow> SendSignalDto \<Rightarrow> principal \<Rightarrow> error + (message \<times> db)" where
  "sendSignal s now dto currentUser =
     (case signalType (g_type dto) of
        None \<Rightarrow> Inl (BadRequestException
          ''Invalid signal type. Must be CALL_OFFER, CALL_ANSWER, or ICE_CANDIDATE'')
      | Some ty \<Rightarrow>
          if (g_type dto = ''CALL_OFFER'' \<or> g_type dto = ''CALL_ANSWER'') \<and>
             \<not> truthy (map_of (g_payload dto) ''sdp'') then
            Inl (BadRequestException (g_type dto @ '' must contain an SDP in the payload''))
          else if \<not> (g_type dto = ''CALL_OFFER'' \<or> g_type dto = ''CALL_ANSWER'') \<and>
             g_type dto = ''ICE_CANDIDATE'' \<and> \<not> truthy (map_of (g_payload dto) ''candidate'') then
            Inl (BadRequestException ''ICE_CANDIDATE must contain a candidate in the payload'')
          else
            (case findById room_id (rooms s) (g_roomId dto) of
               None \<Rightarrow> Inl (NotFoundException ''Room not found'')
             | Some r \<Rightarrow>
                 if \<not> isRoomParticipant r (g_senderModel dto) (g_senderId dto) then
                   Inl (ForbiddenException ''You are not a participant of this room'')
                 else
                   (let msg = \<lparr>msg_id = next_oid s,
                               msg_room = room_id r,
                               msg_senderModel = g_senderModel dto,
                               msg_senderId = g_senderId dto,
                               msg_type = ty,
                               msg_text = None,
                               msg_audio = None,
                               msg_signalingPayload = Some (g_payload dto),
                               msg_createdAt = now\<rparr>;
                        s1 = s\<lparr>messages := messages s @ [msg], next_oid := Suc (next_oid s)\<rparr>
                    in Inr (msg, s1))))"

text \<open>
  \<open>deleteMessage\<close>. The outcome is the store afterwards, the media references
  handed to the storage collaborator for deletion (whose own failures are
  swallowed), and the exception thrown, if any. The newest remaining
  message of the room is the one with the greatest \<open>createdAt\<close>, the earliest stored
  among equals.
\<close>

fun removeFirst :: "('a \<Rightarrow> bool) \<Rightarrow> 'a list \<Rightarrow> 'a list" where
  "removeFirst P [] = []"
| "removeFirst P (x # xs) = (if P x then xs else x # removeFirst P xs)"

definition latestMessage :: "message list \<Rightarrow> oid \<Rightarrow> message option" where
  "latestMessage ms roomId =
     fold (\<lambda>m best.
             if msg_room m = roomId \<and>
                (case best of None \<Rightarrow> True | Some b \<Rightarrow> msg_createdAt b < msg_createdAt m)
             then Some m else best)
          ms None"

record delete_outcome =
  del_db :: db
  del_files :: "string list"
  del_returned :: "error + unit"

definition del_throw :: "db \<Rightarrow> error \<Rightarrow> delete_outcome" where
  "del_throw s e = \<lparr>del_db = s, del_files = [], del_returned = Inl e\<rparr>"

definition deleteMessage :: "db \<Rightarrow> date \<Rightarrow> oid \<Rightarrow> principal \<Rightarrow> delete_outcome" where
  "deleteMessage s now messageId currentUser =
     (case findById msg_id (messages s) messageId of
        None \<Rightarrow> del_throw s (NotFoundException ''Message not found'')
      | Some m \<Rightarrow>
          (case findById room_id (rooms s) (msg_room m) of
             None \<Rightarrow> del_throw s (NotFoundException ''Room not found'')
           | Some r \<Rightarrow>
               (case assertRoomAccess r currentUser of
                  Inl e \<Rightarrow> del_throw s e
                | Inr _ \<Rightarrow>
                    (let userId = getUserId currentUser;
                         isSender = (Some (msg_senderId m) = userId);
                         isSenderModelMatch =
                           ((p_type currentUser = ''child'' \<and> msg_senderModel m = Child) \<or>
                            (p_type currentUser \<noteq> ''child'' \<and> msg_senderModel m = User))
                     in if \<not> isSender \<or> \<not> isSenderModelMatch then
                          del_throw s (ForbiddenException ''You can only delete your own messages'')
                        else
                          (let deletedFiles =
                                 (if msg_type m = AUDIO then
                                    (case msg_audio m of
                                       None \<Rightarrow> []
                                     | Some au \<Rightarrow>
                                         (case cloudinaryPublicId au of
                                            None \<Rightarrow> []
                                          | Some pid \<Rightarrow> if pid = [] then [] else [pid]))
                                  else []);
                               s1 = s\<lparr>messages := removeFirst (\<lambda>x. msg_id x = messageId) (messages s)\<rparr>;
                               s2 = (case latestMessage (messages s1) (msg_room m) of
                                       Some l \<Rightarrow>
                                         s1\<lparr>rooms :=
                                           setLastMessage (msg_room m)
                                             (Some \<lparr>lm_text =
                                                      Some (case msg_text l of
                                                              None \<Rightarrow> ''[Audio]''
                                                            | Some x \<Rightarrow> if x = [] then ''[Audio]'' else x),
                                                    lm_senderModel = msg_senderModel l,
                                                    lm_senderId = msg_senderId l,
                                                    lm_createdAt = msg_createdAt l\<rparr>)
                                             (rooms s1)\<rparr>
                                     | None \<Rightarrow>
                                         s1\<lparr>rooms := setLastMessage (msg_room m) None (rooms s1)\<rparr>)
                           in \<lparr>del_db = s2, del_files = deletedFiles, del_returned = Inr ()\<rparr>)))))"

section \<open>The real-time gateway\<close>

text \<open>
  A socket has an id and, once its handshake token has been verified, the principal
  in \<open>client.data.user\<close>. The gateway's state is the store and the room
  subscriptions (socket id, room id). Token verification belongs to the JWT service
  and is a parameter.
\<close>

record socket =
  sock_id :: nat
  data_user :: "principal option"

record gateway =
  gw_db :: db
  memberships :: "(nat \<times> oid) set"

record send_body =
  b_roomId :: oid
  b_text :: "string option"
  b_content :: "string option"
  b_senderModel :: SenderModel
  b_senderId :: oid
  b_messageType :: "string option"
  b_signalType :: "string option"
  b_targetId :: "oid option"

datatype new_message_payload = Persisted message | RawBody send_body

datatype gw_event =
    presence nat string oid
  | newMessage new_message_payload
  | signal message string oid
  | messageDeleted oid oid

text \<open>
  \<open>To_room r e\<close> is \<open>server.to(room:r).emit\<close>, to every subscriber of the room;
  \<open>To_room_except c r e\<close> is \<open>client.to(room:r).emit\<close>, to every subscriber but the
  socket \<open>c\<close>.
\<close>

datatype gw_emission = To_room oid gw_event | To_room_except nat oid gw_event

datatype ack =
    Ack_error string
  | Ack_ok oid
  | Ack_webrtc_signal
  | Ack_message message
  | Ack_signal message

record gw_outcome =
  gw_after :: gateway
  gw_emitted :: "gw_emission list"
  gw_ack :: ack

definition handleConnection :: "(string \<Rightarrow> principal option) \<Rightarrow> socket \<Rightarrow> string option \<Rightarrow> socket" where
  "handleConnection verify client token =
     (case token of
        None \<Rightarrow> client
      | Some tok \<Rightarrow>
          if tok = [] then client
          else
            (case verify tok of
               Some payload \<Rightarrow> client\<lparr>data_user := Some payload\<rparr>
             | None \<Rightarrow> client))"

record join_data =
  j_roomId :: "oid option"
  j_room :: "oid option"

definition onJoinRoom :: "gateway \<Rightarrow> socket \<Rightarrow> join_data \<Rightarrow> gw_outcome" where
  "onJoinRoom g client data =
     (case (case j_roomId data of Some r \<Rightarrow> Some r | None \<Rightarrow> j_room data) of
        None \<Rightarrow> \<lparr>gw_after = g, gw_emitted = [], gw_ack = Ack_error ''roomId is required''\<rparr>
      | Some roomId \<Rightarrow>
          if data_user client = None then
            \<lparr>gw_after = g, gw_emitted = [], gw_ack = Ack_error ''Unauthorized''\<rparr>
          else
            \<lparr>gw_after = g\<lparr>memberships := insert (sock_id client, roomId) (memberships g)\<rparr>,
             gw_emitted = [To_room roomId (presence (sock_id client) ''joined'' roomId)],
             gw_ack = Ack_ok roomId\<rparr>)"

definition onLeaveRoom :: "gateway \<Rightarrow> socket \<Rightarrow> oid \<Rightarrow> gw_outcome" where
  "onLeaveRoom g client roomId =
     \<lparr>gw_after = g\<lparr>memberships := memberships g - {(sock_id client, roomId)}\<rparr>,
      gw_emitted = [To_room roomId (presence (sock_id client) ''left'' roomId)],
      gw_ack = Ack_ok roomId\<rparr>"

definition onSendText :: "gateway \<Rightarrow> date \<Rightarrow> socket \<Rightarrow> send_body \<Rightarrow> gw_outcome" where
  "onSendText g now client body =
     (case data_user client of
        None \<Rightarrow> \<lparr>gw_after = g, gw_emitted = [], gw_ack = Ack_error ''Unauthorized''\<rparr>
      | Some user \<Rightarrow>
          if b_messageType body = Some ''webrtc_signal'' then
            \<lparr>gw_after = g,
             gw_emitted = [To_room_except (sock_id client) (b_roomId body) (newMessage (RawBody body))],
             gw_ack = Ack_webrtc_signal\<rparr>
          else
            (let messagePayload =
                   \<lparr>t_roomId = b_roomId body,
                    t_text = (if truthy (b_text body) then b_text body else b_content body),
                    t_senderModel = b_senderModel body,
                    t_senderId = b_senderId body\<rparr>
             in (case sendText (gw_db g) now messagePayload user of
                   Inl e \<Rightarrow> \<lparr>gw_after = g, gw_emitted = [], gw_ack = Ack_error (error_message e)\<rparr>
                 | Inr (msg, s') \<Rightarrow>
                     \<lparr>gw_after = g\<lparr>gw_db := s'\<rparr>,
                      gw_emitted = [To_room (b_roomId body) (newMessage (Persisted msg))],
                      gw_ack = Ack_message msg\<rparr>)))"

definition onSignal :: "gateway \<Rightarrow> date \<Rightarrow> socket \<Rightarrow> SendSignalDto \<Rightarrow> gw_outcome" where
  "onSignal g now client body =
     (case data_user client of
        None \<Rightarrow> \<lparr>gw_after = g, gw_emitted = [], gw_ack = Ack_error ''Unauthorized''\<rparr>
      | Some user \<Rightarrow>
          (case sendSignal (gw_db g) now body user of
             Inl e \<Rightarrow> \<lparr>gw_after = g, gw_emitted = [], gw_ack = Ack_error (error_message e)\<rparr>
           | Inr (msg, s') \<Rightarrow>
               \<lparr>gw_after = g\<lparr>gw_db := s'\<rparr>,
                gw_emitted = [To_room_except (sock_id client) (g_roomId body)
                                (signal msg (g_type body) (g_senderId body))],
                gw_ack = Ack_signal msg\<rparr>))"

definition broadcastMessage :: "oid \<Rightarrow> new_message_payload \<Rightarrow> gw_emission list" where
  "broadcastMessage roomId m = [To_room roomId (newMessage m)]"

definition broadcastMessageDeleted :: "oid \<Rightarrow> oid \<Rightarrow> gw_emission list" where
  "broadcastMessageDeleted roomId messageId = [To_room roomId (messageDeleted messageId roomId)]"

section \<open>Serial runs of requests and timers\<close>

text \<open>
  The controller maps a request to one service call: \<open>trigger\<close> to \<open>triggerSos\<close>,
  \<open>parent-answered\<close> to \<open>markParentAnswered\<close>, \<open>resolve\<close> to \<open>resolveAlert\<close>; a
  timer set by the service runs \<open>checkCallStatus\<close> with the arguments it was set
  with, once. A serial run is a run in which no two calls overlap: each call and
  each timer callback finishes before the next one starts. The state of such a run
  is the store with the timers that have been set and have not fired, and a timer
  that is not pending cannot fire. The service itself does nothing to keep calls
  apart, so serial runs are some of its runs, not all of them.
\<close>

record sos_system =
  sys_db :: db
  pending :: "(oid \<times> oid) list"

datatype sos_call =
    Trigger oid principal
  | Fire oid oid
  | Answer oid principal
  | Resolve oid principal

fun serial_step :: "sos_system \<Rightarrow> date \<times> sos_call \<Rightarrow> sos_system" where
  "serial_step sys (now, Trigger childId u) =
     (let r = triggerSos (sys_db sys) now childId u
      in \<lparr>sys_db = out_db r, pending = pending sys @ map snd (timers r)\<rparr>)"
| "serial_step sys (now, Fire alertId roomId) =
     (if (alertId, roomId) \<in> set (pending sys) then
        (let r = checkCallStatus (sys_db sys) now alertId roomId
         in \<lparr>sys_db = out_db r,
             pending = remove1 (alertId, roomId) (pending sys) @ map snd (timers r)\<rparr>)
      else sys)"
| "serial_step sys (now, Answer alertId u) =
     (let r = markParentAnswered (sys_db sys) now alertId u
      in \<lparr>sys_db = out_db r, pending = pending sys @ map snd (timers r)\<rparr>)"
| "serial_step sys (now, Resolve alertId u) =
     (let r = resolveAlert (sys_db sys) now alertId u
      in \<lparr>sys_db = out_db r, pending = pending sys @ map snd (timers r)\<rparr>)"

section \<open>Predicates of the specification\<close>

text \<open>
  A status is non-terminal when it is \<open>PENDING\<close>, \<open>CALLING_PARENT\<close> or
  \<open>CALLING_EMERGENCY\<close>. The active alerts of a child are its stored alerts in a
  non-terminal status, and the invariant of the alert collection is that no child
  has more than one of them.
\<close>

definition nonTerminal :: "SosAlertStatus \<Rightarrow> bool" where
  "nonTerminal st = (st = PENDING \<or> st = CALLING_PARENT \<or> st = CALLING_EMERGENCY)"

definition activeAlertsOf :: "db \<Rightarrow> oid \<Rightarrow> SosAlert list" where
  "activeAlertsOf s c = filter (\<lambda>a. alert_child a = c \<and> nonTerminal (status a)) (sosAlerts s)"

definition at_most_one_active :: "db \<Rightarrow> bool" where
  "at_most_one_active s = list_all (\<lambda>a. length (activeAlertsOf s (alert_child a)) \<le> 1) (sosAlerts s)"

text \<open>The outcome of a timer callback that does nothing.\<close>

definition unchanged :: "db \<Rightarrow> unit outcome" where
  "unchanged s = \<lparr>out_db = s, emitted = [], timers = [], returned = Inr ()\<rparr>"

text \<open>
  The statuses on which \<open>checkCallStatus\<close> returns at once. One stored alert is
  rewritten when the first alert with the given id changes its status and keeps its
  id and child, and every other alert stays as it is. A pending timer is in order
  when its alert id has been handed out and the alert, if stored, is still ringing
  the parent or is one the timer will skip. The invariant of a serial run: at most
  one active alert per child, alert ids below the store's counter, at most one
  pending timer per alert, and every pending timer in order.
\<close>

definition skipped :: "SosAlertStatus \<Rightarrow> bool" where
  "skipped st = (st = RESOLVED \<or> st = CANCELLED \<or> st = PARENT_ANSWERED)"

definition alert_rewritten ::
  "SosAlert list \<Rightarrow> SosAlert list \<Rightarrow> oid \<Rightarrow> SosAlertStatus \<Rightarrow> SosAlertStatus \<Rightarrow> bool" where
  "alert_rewritten xs ys aid st st' =
     (\<exists>pre a a' post. xs = pre @ a # post \<and> ys = pre @ a' # post \<and>
        (\<forall>x\<in>set pre. alert_id x \<noteq> aid) \<and> alert_id a = aid \<and> alert_id a' = aid \<and>
        alert_child a' = alert_child a \<and> status a = st \<and> status a' = st')"

definition timer_ok :: "db \<Rightarrow> oid \<Rightarrow> bool" where
  "timer_ok s aid =
     (aid < next_oid s \<and>
      (case findById alert_id (sosAlerts s) aid of
         None \<Rightarrow> True
       | Some a \<Rightarrow> status a = CALLING_PARENT \<or> skipped (status a)))"

definition serial_inv :: "sos_system \<Rightarrow> bool" where
  "serial_inv sys =
     (at_most_one_active (sys_db sys) \<and>
      list_all (\<lambda>a. alert_id a < next_oid (sys_db sys)) (sosAlerts (sys_db sys)) \<and>
      distinct (map fst (pending sys)) \<and>
      list_all (\<lambda>t. timer_ok (sys_db sys) (fst t)) (pending sys))"

section \<open>Example data\<close>

text \<open>
  A family used to run the operations: child 11 with primary parent 12 and linked
  parent 15, their room 20 with invited parent 13, an administrator 19, and no alert
  or message yet.
\<close>

definition demo_child :: child_doc where
  "demo_child = \<lparr>child_id = 11, child_parent = 12, linkedParents = [15],
                  firstName = ''Ada'', lastName = ''Ben'', location = None\<rparr>"

definition demo_parent :: user_doc where
  "demo_parent = \<lparr>user_id = 12, user_role = ROLE_PARENT, user_phoneNumber = Some ''+21612345678''\<rparr>"

definition demo_room :: room where
  "demo_room = \<lparr>room_id = 20, room_parent = 12, room_child = 11, invitedParents = [13],
                 isActive = True, lastMessage = None\<rparr>"

definition demo_db :: db where
  "demo_db = \<lparr>rooms = [demo_room], messages = [], children = [demo_child],
               users = [\<lparr>user_id = 12, user_role = ROLE_PARENT, user_phoneNumber = Some ''+21612345678''\<rparr>,
                        \<lparr>user_id = 13, user_role = ROLE_PARENT, user_phoneNumber = None\<rparr>,
                        \<lparr>user_id = 15, user_role = ROLE_PARENT, user_phoneNumber = None\<rparr>,
                        \<lparr>user_id = 19, user_role = ROLE_ADMIN, user_phoneNumber = None\<rparr>],
               sosAlerts = [], next_oid = 100\<rparr>"

definition child_principal :: "oid \<Rightarrow> principal" where
  "child_principal i = \<lparr>p_id = Some i, p_sub = None, p_uid = None, p_type = ''child'', p_role = None\<rparr>"

definition parent_principal :: "oid \<Rightarrow> principal" where
  "parent_principal i =
     \<lparr>p_id = Some i, p_sub = None, p_uid = None, p_type = ''user'', p_role = Some ROLE_PARENT\<rparr>"

definition admin_principal :: "oid \<Rightarrow> principal" where
  "admin_principal i =
     \<lparr>p_id = Some i, p_sub = None, p_uid = None, p_type = ''user'', p_role = Some ROLE_ADMIN\<rparr>"

text \<open>
  The alert of child 11 as the escalation leaves it: two parent calls and the
  emergency dialer entry.
\<close>

definition escalated_alert :: SosAlert where
  "escalated_alert =
     \<lparr>alert_id = 100, alert_child = 11, alert_parent = 12, status = EMERGENCY_CALLED,
      parentCallAttempts = 2, emergencyCallAttempts = 1,
      callHistory =
        [\<lparr>callSid = SOS_CALL 100, phoneNumber = ''+21612345678'', callType = PARENT,
          call_status = ''initiated'', answered = False, call_timestamp = 1000\<rparr>,
         \<lparr>callSid = SOS_CALL_RETRY 2, phoneNumber = ''N/A'', callType = PARENT,
          call_status = ''retry'', answered = False, call_timestamp = 31000\<rparr>,
         \<lparr>callSid = PHONE_DIALER_196, phoneNumber = ''196'', callType = EMERGENCY,
          call_status = ''dialer_opened'', answered = False, call_timestamp = 61000\<rparr>],
      resolvedAt = None, resolvedBy = None,
      metadata = \<lparr>meta_roomId = 20, childLocation = None, triggeredAt = 1000\<rparr>\<rparr>"

definition escalated_db :: db where
  "escalated_db = demo_db\<lparr>sosAlerts := [escalated_alert], next_oid := 101\<rparr>"

text \<open>The same alert while the parent is being rung a second time.\<close>

definition ringing_alert :: SosAlert where
  "ringing_alert =
     \<lparr>alert_id = 100, alert_child = 11, alert_parent = 12, status = CALLING_PARENT,
      parentCallAttempts = 2, emergencyCallAttempts = 0,
      callHistory =
        [\<lparr>callSid = SOS_CALL 100, phoneNumber = ''+21612345678'', callType = PARENT,
          call_status = ''initiated'', answered = False, call_timestamp = 1000\<rparr>,
         \<lparr>callSid = SOS_CALL_RETRY 2, phoneNumber = ''N/A'', callType = PARENT,
          call_status = ''retry'', answered = False, call_timestamp = 31000\<rparr>],
      resolvedAt = None, resolvedBy = None,
      metadata = \<lparr>meta_roomId = 20, childLocation = None, triggeredAt = 1000\<rparr>\<rparr>"

definition ringing_db :: db where
  "ringing_db = demo_db\<lparr>sosAlerts := [ringing_alert], next_oid := 101\<rparr>"

text \<open>
  Requests against the room: a text from the invited parent 13, the store after
  it, a voice clip and a call offer from the child.
\<close>

definition hello_msg :: message where
  "hello_msg = \<lparr>msg_id = 100, msg_room = 20, msg_senderModel = User, msg_senderId = 13,
                 msg_type = TEXT, msg_text = Some ''hello'', msg_audio = None,
                 msg_signalingPayload = None, msg_createdAt = 5000\<rparr>"

definition chat_db :: db where
  "chat_db = demo_db\<lparr>rooms := [demo_room\<lparr>lastMessage :=
                 Some \<lparr>lm_text = Some ''hello'', lm_senderModel = User, lm_senderId = 13,
                       lm_createdAt = 5000\<rparr>\<rparr>],
               messages := [hello_msg], next_oid := 101\<rparr>"

definition hello_dto :: SendTextDto where
  "hello_dto = \<lparr>t_roomId = 20, t_text = Some ''hello'', t_senderModel = User, t_senderId = 13\<rparr>"

definition clip_dto :: SendAudioDto where
  "clip_dto = \<lparr>a_roomId = 20, a_senderModel = Child, a_senderId = 11,
                a_audio = \<lparr>url = ''https://media/clip'', durationSec = Some 3, mimeType = None,
                            sizeBytes = None, cloudinaryPublicId = Some ''clip1''\<rparr>\<rparr>"

definition offer_dto :: SendSignalDto where
  "offer_dto = \<lparr>g_roomId = 20, g_senderModel = Child, g_senderId = 11, g_type = ''CALL_OFFER'',
                 g_payload = [(''sdp'', ''v=0'')]\<rparr>"

text \<open>
  A gateway over the example store with socket 1 (the invited parent 13)
  subscribed to room 20, a socket that connected without a token, a signalling
  relay body and a plain text body.
\<close>

definition demo_gateway :: gateway where
  "demo_gateway = \<lparr>gw_db = demo_db, memberships = {(1, 20)}\<rparr>"

definition anonymous_socket :: socket where
  "anonymous_socket = \<lparr>sock_id = 7, data_user = None\<rparr>"




text \<open>
  The store after the parent has answered the ringing alert, and the store after
  two trigger requests of child 11 that both finished reading before either wrote.
\<close>

definition answered_db :: db where
  "answered_db = out_db (markParentAnswered ringing_db 60500 100 (parent_principal 12))"

definition two_triggers_db :: db where
  "two_triggers_db =
     out_db (triggerSos_create
       (out_db (triggerSos_create demo_db 1000 11 demo_child demo_parent demo_room))
       1001 11 demo_child demo_parent demo_room)"

text \<open>
  An alert whose history holds an answered parent call, an unanswered one and the
  emergency entry.
\<close>

definition mixed_alert :: SosAlert where
  "mixed_alert =
     \<lparr>alert_id = 100, alert_child = 11, alert_parent = 12, status = EMERGENCY_CALLED,
      parentCallAttempts = 2, emergencyCallAttempts = 1,
      callHistory =
        [\<lparr>callSid = SOS_CALL 100, phoneNumber = ''+21612345678'', callType = PARENT,
          call_status = ''completed'', answered = True, call_timestamp = 1000\<rparr>,
         \<lparr>callSid = SOS_CALL_RETRY 2, phoneNumber = ''N/A'', callType = PARENT,
          call_status = ''retry'', answered = False, call_timestamp = 31000\<rparr>,
         \<lparr>callSid = PHONE_DIALER_196, phoneNumber = ''196'', callType = EMERGENCY,
          call_status = ''dialer_opened'', answered = False, call_timestamp = 61000\<rparr>],
      resolvedAt = None, resolvedBy = None,
      metadata = \<lparr>meta_roomId = 20, childLocation = None, triggeredAt = 1000\<rparr>\<rparr>"

definition mixed_db :: db where
  "mixed_db = demo_db\<lparr>sosAlerts := [mixed_alert], next_oid := 101\<rparr>"

section \<open>Properties\<close>

subsection \<open>Store helpers\<close>

text \<open>The status filter of the service's active-alert query selects the non-terminal statuses.\<close>

lemma isActiveStatus_nonTerminal: "isActiveStatus st = nonTerminal st"
  by (simp add: isActiveStatus_def nonTerminal_def)

lemma activeAlertsOf_code:
  "activeAlertsOf s c = filter (\<lambda>a. alert_child a = c \<and> isActiveStatus (status a)) (sosAlerts s)"
  by (simp add: activeAlertsOf_def isActiveStatus_nonTerminal)

lemma at_most_one_active_iff:
  "at_most_one_active s \<longleftrightarrow> (\<forall>c. length (activeAlertsOf s c) \<le> 1)"
proof
  assume h: "at_most_one_active s"
  show "\<forall>c. length (activeAlertsOf s c) \<le> 1"
  proof
    fix c
    show "length (activeAlertsOf s c) \<le> 1"
    proof (cases "activeAlertsOf s c")
      case Nil
      then show ?thesis by simp
    next
      case (Cons a as)
      then have "a \<in> set (activeAlertsOf s c)" by simp
      then have "a \<in> set (sosAlerts s)" "alert_child a = c"
        by (auto simp: activeAlertsOf_code)
      with h show ?thesis
        by (auto simp: at_most_one_active_def list_all_iff)
    qed
  qed
next
  assume "\<forall>c. length (activeAlertsOf s c) \<le> 1"
  then show "at_most_one_active s"
    by (simp add: at_most_one_active_def list_all_iff)
qed

lemma map_updateFirst_preserved:
  "(\<And>x. g (f x) = g x) \<Longrightarrow> map g (updateFirst P f xs) = map g xs"
  by (induction xs) auto

lemma length_updateFirst: "length (updateFirst P f xs) = length xs"
  by (induction xs) auto

lemma filter_via_map:
  "length (filter (\<lambda>a. Q (g a)) xs) = length (filter Q (map g xs))"
  by (induction xs) auto

lemma find_None_filter: "find P xs = None \<longleftrightarrow> filter P xs = []"
  by (induction xs) auto

subsection \<open>Triggering an alert\<close>

lemma activeAlertsOf_length_via_map:
  "length (activeAlertsOf s c) =
   length (filter (\<lambda>p. fst p = c \<and> isActiveStatus (snd p))
             (map (\<lambda>a. (alert_child a, status a)) (sosAlerts s)))"
  unfolding activeAlertsOf_code
  by (induction "sosAlerts s" arbitrary: s) (auto simp: filter_via_map [symmetric] comp_def)

lemma triggerSos_failure_unchanged:
  "returned (triggerSos s now childId u) = Inl e \<Longrightarrow>
   triggerSos s now childId u = throw s e"
  by (auto simp: triggerSos_def throw_def Let_def split: option.splits if_splits)

lemma triggerSos_existing:
  "findActiveAlert s childId = Some active \<Longrightarrow>
   returned (triggerSos s now childId u) = Inr (alert, roomId, action) \<Longrightarrow>
   alert = active \<and> out_db (triggerSos s now childId u) = s \<and>
   emitted (triggerSos s now childId u) = [] \<and> timers (triggerSos s now childId u) = []"
  by (auto simp: triggerSos_def throw_def Let_def split: option.splits if_splits)

lemma triggerSos_new:
  "findActiveAlert s childId = None \<Longrightarrow>
   returned (triggerSos s now childId u) = Inr (alert, roomId, action) \<Longrightarrow>
   alert_id alert = next_oid s \<and> alert_child alert = childId \<and>
   status alert = CALLING_PARENT \<and> parentCallAttempts alert = 1 \<and>
   emergencyCallAttempts alert = 0 \<and>
   map (\<lambda>a. (alert_id a, alert_child a, status a, parentCallAttempts a, emergencyCallAttempts a))
       (sosAlerts (out_db (triggerSos s now childId u))) =
   map (\<lambda>a. (alert_id a, alert_child a, status a, parentCallAttempts a, emergencyCallAttempts a))
       (sosAlerts s) @ [(next_oid s, childId, CALLING_PARENT, 1, 0)] \<and>
   timers (triggerSos s now childId u) = [(30000, alert_id alert, roomId)]"
  by (auto simp: triggerSos_def throw_def Let_def findByIdAndUpdate_def map_updateFirst_preserved
           split: option.splits if_splits)


lemma triggerSos_new_active_count:
  assumes none: "findActiveAlert s childId = None"
    and ret: "returned (triggerSos s now childId u) = Inr (alert, roomId, action)"
  shows "length (activeAlertsOf (out_db (triggerSos s now childId u)) c) =
         length (activeAlertsOf s c) + (if c = childId then 1 else 0)"
proof -
  let ?s' = "out_db (triggerSos s now childId u)"
  let ?g = "\<lambda>a. (alert_id a, alert_child a, status a, parentCallAttempts a, emergencyCallAttempts a)"
  have m: "map ?g (sosAlerts ?s') = map ?g (sosAlerts s) @ [(next_oid s, childId, CALLING_PARENT, 1, 0)]"
    using triggerSos_new [OF none ret] by blast
  have "map (\<lambda>a. (alert_child a, status a)) (sosAlerts ?s') =
        map (\<lambda>q. (fst (snd q), fst (snd (snd q)))) (map ?g (sosAlerts ?s'))"
    by (simp add: comp_def)
  also have "\<dots> = map (\<lambda>a. (alert_child a, status a)) (sosAlerts s) @ [(childId, CALLING_PARENT)]"
    unfolding m by (simp add: comp_def)
  finally show ?thesis
    by (simp add: activeAlertsOf_length_via_map isActiveStatus_def)
qed

lemma triggerSos_preserves_at_most_one_active:
  assumes inv: "at_most_one_active s"
  shows "at_most_one_active (out_db (triggerSos s now childId u))"
proof (cases "returned (triggerSos s now childId u)")
  case (Inl e)
  then show ?thesis
    using inv by (simp add: triggerSos_failure_unchanged throw_def)
next
  case (Inr res)
  obtain alert roomId action where res: "res = (alert, roomId, action)"
    by (cases res) auto
  show ?thesis
  proof (cases "findActiveAlert s childId")
    case (Some active)
    then show ?thesis
      using inv Inr res triggerSos_existing by metis
  next
    case None
    have empty: "activeAlertsOf s childId = []"
      using None by (simp add: findActiveAlert_def activeAlertsOf_code find_None_filter)
    show ?thesis
      unfolding at_most_one_active_iff
    proof
      fix c
      have "length (activeAlertsOf s c) \<le> 1"
        using inv by (simp add: at_most_one_active_iff)
      then show "length (activeAlertsOf (out_db (triggerSos s now childId u)) c) \<le> 1"
        using triggerSos_new_active_count [OF None Inr [unfolded res], of c] empty
        by (cases "c = childId") auto
    qed
  qed
qed

lemma triggerSos_demo:
  "triggerSos demo_db 1000 11 (child_principal 11) =
    \<lparr>out_db = demo_db\<lparr>sosAlerts :=
         [\<lparr>alert_id = 100, alert_child = 11, alert_parent = 12, status = CALLING_PARENT,
           parentCallAttempts = 1, emergencyCallAttempts = 0,
           callHistory = [\<lparr>callSid = SOS_CALL 100, phoneNumber = ''+21612345678'',
                           callType = PARENT, call_status = ''initiated'', answered = False,
                           call_timestamp = 1000\<rparr>],
           resolvedAt = None, resolvedBy = None,
           metadata = \<lparr>meta_roomId = 20, childLocation = None, triggeredAt = 1000\<rparr>\<rparr>],
         next_oid := 101\<rparr>,
     emitted = [Emit_room_SOS_CALL_OFFER 20 20 11 100 None 1000,
                Emit_sos_call 12 20 100 11 ''Ada Ben'' 1000],
     timers = [(30000, 100, 20)],
     returned = Inr (\<lparr>alert_id = 100, alert_child = 11, alert_parent = 12, status = CALLING_PARENT,
           parentCallAttempts = 1, emergencyCallAttempts = 0, callHistory = [],
           resolvedAt = None, resolvedBy = None,
           metadata = \<lparr>meta_roomId = 20, childLocation = None, triggeredAt = 1000\<rparr>\<rparr>,
         20, ''CALL_INITIATED'')\<rparr>"
  by (simp add: triggerSos_def demo_db_def demo_child_def demo_room_def child_principal_def
      getUserId_def findById_def findActiveAlert_def findByIdAndUpdate_def orNA_def Let_def)

lemma triggerSos_returns_iff:
  "(\<exists>res. returned (triggerSos s now childId u) = Inr res) =
    (p_type u = ''child'' \<and> getUserId u = Some childId \<and>
     (\<exists>child. findById child_id (children s) childId = Some child \<and>
        findById user_id (users s) (child_parent child) \<noteq> None \<and>
        find (\<lambda>r. room_parent r = child_parent child \<and> room_child r = childId \<and> isActive r)
          (rooms s) \<noteq> None))"
  by (auto simp: triggerSos_def throw_def Let_def split: option.splits if_splits)

subsection \<open>The timer callbacks\<close>

lemma updateFirst_append_fresh:
  "\<forall>y\<in>set xs. \<not> P y \<Longrightarrow> P x \<Longrightarrow> updateFirst P f (xs @ [x]) = xs @ [f x]"
  by (induction xs) auto

lemma find_append_fresh:
  "\<forall>y\<in>set xs. \<not> P y \<Longrightarrow> P x \<Longrightarrow> find P (xs @ [x]) = Some x"
  by (induction xs) auto

lemma triggerSos_new_explicit:
  assumes fresh: "\<forall>a\<in>set (sosAlerts s). alert_id a \<noteq> next_oid s"
    and none: "findActiveAlert s childId = None"
    and ret: "returned (triggerSos s t0 childId u) = Inr (alert, roomId, action)"
  shows "\<exists>child parent.
      findById child_id (children s) childId = Some child \<and>
      findById user_id (users s) (child_parent child) = Some parent \<and>
      alert = \<lparr>alert_id = next_oid s, alert_child = childId, alert_parent = user_id parent,
               status = CALLING_PARENT, parentCallAttempts = 1, emergencyCallAttempts = 0,
               callHistory = [], resolvedAt = None, resolvedBy = None,
               metadata = \<lparr>meta_roomId = roomId, childLocation = location child, triggeredAt = t0\<rparr>\<rparr> \<and>
      out_db (triggerSos s t0 childId u) =
        s\<lparr>sosAlerts := sosAlerts s @
             [alert\<lparr>callHistory :=
                [\<lparr>callSid = SOS_CALL (next_oid s), phoneNumber = orNA (user_phoneNumber parent),
                  callType = PARENT, call_status = ''initiated'', answered = False,
                  call_timestamp = t0\<rparr>]\<rparr>],
           next_oid := Suc (next_oid s)\<rparr> \<and>
      timers (triggerSos s t0 childId u) = [(30000, next_oid s, roomId)]"
  using none ret fresh
  by (auto simp: triggerSos_def throw_def Let_def findByIdAndUpdate_def updateFirst_append_fresh
           split: option.splits if_splits)

lemma escalation_demo:
  "out_db (checkCallStatus
     (out_db (checkCallStatus (out_db (triggerSos demo_db 1000 11 (child_principal 11))) 31000 100 20))
     61000 100 20) = escalated_db"
  unfolding triggerSos_demo
  by (simp add: checkCallStatus_def callEmergency_def escalated_db_def escalated_alert_def
      demo_db_def demo_child_def findById_def findByIdAndUpdate_def
      MAX_PARENT_CALL_ATTEMPTS_def EMERGENCY_NUMBER_def Let_def)

text \<open>
  Claim C3. An alert is created by \<open>triggerSos\<close> (the child had no active alert) and
  the parent never answers: no other call touches the store between the timers. The
  trigger sets one timer for the alert; the first \<open>checkCallStatus\<close> is the second
  parent attempt and sets the next timer; the second \<open>checkCallStatus\<close> escalates
  and sets none. The alert then has status \<open>EMERGENCY_CALLED\<close>, two parent
  attempts, \<open>emergencyCallAttempts = 1\<close> and a call history that ends with an
  \<open>EMERGENCY\<close> entry whose phone number is the emergency number 196, and the
  child's device has been told to open the dialer for that number. Identifiers
  handed out by the store are fresh.
\<close>

theorem escalation_reaches_emergency:
  assumes fresh: "\<forall>a\<in>set (sosAlerts s). alert_id a \<noteq> next_oid s"
    and none: "findActiveAlert s childId = None"
    and ret: "returned (triggerSos s t0 childId u) = Inr (alert, roomId, action)"
  shows "timers (triggerSos s t0 childId u) = [(30000, alert_id alert, roomId)] \<and>
    (let r1 = checkCallStatus (out_db (triggerSos s t0 childId u)) t1 (alert_id alert) roomId;
         r2 = checkCallStatus (out_db r1) t2 (alert_id alert) roomId
     in returned r1 = Inr () \<and> timers r1 = [(30000, alert_id alert, roomId)] \<and>
        returned r2 = Inr () \<and> timers r2 = [] \<and>
        emitted r2 = [Emit_sos_emergency childId (alert_id alert) ''196'' t2] \<and>
        (\<exists>a e1 e2. findById alert_id (sosAlerts (out_db r2)) (alert_id alert) = Some a \<and>
           status a = EMERGENCY_CALLED \<and> parentCallAttempts a = 2 \<and>
           emergencyCallAttempts a = 1 \<and>
           callHistory a = [e1, e2,
             \<lparr>callSid = PHONE_DIALER_196, phoneNumber = ''196'', callType = EMERGENCY,
              call_status = ''dialer_opened'', answered = False, call_timestamp = t2\<rparr>] \<and>
           callType e1 = PARENT \<and> callType e2 = PARENT))"
proof -
  from triggerSos_new_explicit [OF fresh none ret]
  obtain child parent where h:
    "findById child_id (children s) childId = Some child \<and>
      findById user_id (users s) (child_parent child) = Some parent \<and>
      alert = \<lparr>alert_id = next_oid s, alert_child = childId, alert_parent = user_id parent,
               status = CALLING_PARENT, parentCallAttempts = 1, emergencyCallAttempts = 0,
               callHistory = [], resolvedAt = None, resolvedBy = None,
               metadata = \<lparr>meta_roomId = roomId, childLocation = location child, triggeredAt = t0\<rparr>\<rparr> \<and>
      out_db (triggerSos s t0 childId u) =
        s\<lparr>sosAlerts := sosAlerts s @
             [alert\<lparr>callHistory :=
                [\<lparr>callSid = SOS_CALL (next_oid s), phoneNumber = orNA (user_phoneNumber parent),
                  callType = PARENT, call_status = ''initiated'', answered = False,
                  call_timestamp = t0\<rparr>]\<rparr>],
           next_oid := Suc (next_oid s)\<rparr> \<and>
      timers (triggerSos s t0 childId u) = [(30000, next_oid s, roomId)]"
    by (elim exE) (rule that)
  note child = h [THEN conjunct1]
  note alert = h [THEN conjunct2, THEN conjunct2, THEN conjunct1]
  note db = h [THEN conjunct2, THEN conjunct2, THEN conjunct2, THEN conjunct1]
  note tm = h [THEN conjunct2, THEN conjunct2, THEN conjunct2, THEN conjunct2]
  have cid: "child_id child = childId"
    using child by (auto simp: findById_def dest: find_Some_iff [THEN iffD1])
  have aid: "alert_id alert = next_oid s"
    by (simp add: alert)
  have fresh': "\<forall>y\<in>set (sosAlerts s). \<not> alert_id y = next_oid s"
    using fresh by simp
  show ?thesis
    unfolding db aid tm
    using child cid fresh'
    by (simp add: alert checkCallStatus_def callEmergency_def findById_def findByIdAndUpdate_def
        find_append_fresh updateFirst_append_fresh MAX_PARENT_CALL_ATTEMPTS_def
        EMERGENCY_NUMBER_def Let_def)
qed

theorem escalation_reaches_emergency_witness:
  "sosAlerts demo_db = [] \<and> findActiveAlert demo_db 11 = None \<and>
   timers (triggerSos demo_db 1000 11 (child_principal 11)) = [(30000, 100, 20)] \<and>
   timers (checkCallStatus (out_db (triggerSos demo_db 1000 11 (child_principal 11))) 31000 100 20) =
     [(30000, 100, 20)] \<and>
   (\<exists>a e1 e2. findById alert_id (sosAlerts (out_db (checkCallStatus
       (out_db (checkCallStatus (out_db (triggerSos demo_db 1000 11 (child_principal 11))) 31000 100 20))
       61000 100 20))) 100 = Some a \<and>
     status a = EMERGENCY_CALLED \<and> parentCallAttempts a = 2 \<and> emergencyCallAttempts a = 1 \<and>
     callHistory a = [e1, e2,
       \<lparr>callSid = PHONE_DIALER_196, phoneNumber = ''196'', callType = EMERGENCY,
        call_status = ''dialer_opened'', answered = False, call_timestamp = 61000\<rparr>])"
proof -
  have e: "sosAlerts demo_db = []"
    by (simp add: demo_db_def)
  have fresh: "\<forall>a\<in>set (sosAlerts demo_db). alert_id a \<noteq> next_oid demo_db"
    by (simp add: e)
  have none: "findActiveAlert demo_db 11 = None"
    by (simp add: findActiveAlert_def e)
  have ret: "returned (triggerSos demo_db 1000 11 (child_principal 11)) =
      Inr (\<lparr>alert_id = 100, alert_child = 11, alert_parent = 12, status = CALLING_PARENT,
           parentCallAttempts = 1, emergencyCallAttempts = 0, callHistory = [],
           resolvedAt = None, resolvedBy = None,
           metadata = \<lparr>meta_roomId = 20, childLocation = None, triggeredAt = 1000\<rparr>\<rparr>,
         20, ''CALL_INITIATED'')"
    by (simp add: triggerSos_demo)
  show ?thesis
    using escalation_reaches_emergency [OF fresh none ret, of 31000 61000] e none
    by (simp add: Let_def) blast
qed

text \<open>
  Both callbacks do nothing on an alert that is \<open>RESOLVED\<close> or \<open>CANCELLED\<close>, and
  \<open>checkCallStatus\<close> does nothing on one that is \<open>PARENT_ANSWERED\<close>: the store
  is unchanged, nothing is emitted and no timer is set.
\<close>

lemma timers_inert_on_resolved:
  assumes "findById alert_id (sosAlerts s) alertId = Some a"
  shows "(status a = RESOLVED \<or> status a = CANCELLED \<or> status a = PARENT_ANSWERED \<longrightarrow>
            checkCallStatus s now alertId roomId = unchanged s) \<and>
         (status a = RESOLVED \<or> status a = CANCELLED \<longrightarrow>
            callEmergency s now alertId = unchanged s)"
  using assms by (simp add: checkCallStatus_def callEmergency_def unchanged_def)

text \<open>
  \<open>callEmergency\<close> has no test for \<open>PARENT_ANSWERED\<close>, the test its caller
  \<open>checkCallStatus\<close> makes: run on an answered alert it dials the emergency
  number.
\<close>

lemma callEmergency_on_parent_answered:
  "status (ringing_alert\<lparr>status := PARENT_ANSWERED\<rparr>) = PARENT_ANSWERED \<and>
   checkCallStatus (ringing_db\<lparr>sosAlerts := [ringing_alert\<lparr>status := PARENT_ANSWERED\<rparr>]\<rparr>) 61000 100 20 =
     unchanged (ringing_db\<lparr>sosAlerts := [ringing_alert\<lparr>status := PARENT_ANSWERED\<rparr>]\<rparr>) \<and>
   emitted (callEmergency (ringing_db\<lparr>sosAlerts := [ringing_alert\<lparr>status := PARENT_ANSWERED\<rparr>]\<rparr>) 61000 100) =
     [Emit_sos_emergency 11 100 ''196'' 61000] \<and>
   map status (sosAlerts (out_db
     (callEmergency (ringing_db\<lparr>sosAlerts := [ringing_alert\<lparr>status := PARENT_ANSWERED\<rparr>]\<rparr>) 61000 100))) =
     [EMERGENCY_CALLED]"
  by (simp add: checkCallStatus_def callEmergency_def unchanged_def ringing_db_def ringing_alert_def
      demo_db_def demo_child_def findById_def findByIdAndUpdate_def
      EMERGENCY_NUMBER_def Let_def)

text \<open>\<open>checkCallStatus\<close> is the load of the alert followed by the rest of its body.\<close>

lemma checkCallStatus_in_phases:
  "checkCallStatus s now alertId roomId =
     (case findById alert_id (sosAlerts s) alertId of
        None \<Rightarrow> \<lparr>out_db = s, emitted = [], timers = [], returned = Inr ()\<rparr>
      | Some alert \<Rightarrow> checkCallStatus_loaded s now alertId roomId alert)"
  by (simp add: checkCallStatus_def checkCallStatus_loaded_def split: option.splits)

lemma answered_db_eval:
  "answered_db =
     ringing_db\<lparr>sosAlerts :=
       [ringing_alert\<lparr>status := PARENT_ANSWERED, resolvedAt := Some 60500, resolvedBy := Some 12,
          callHistory :=
            [\<lparr>callSid = SOS_CALL 100, phoneNumber = ''+21612345678'', callType = PARENT,
              call_status = ''answered'', answered = True, call_timestamp = 1000\<rparr>,
             \<lparr>callSid = SOS_CALL_RETRY 2, phoneNumber = ''N/A'', callType = PARENT,
              call_status = ''answered'', answered = True, call_timestamp = 31000\<rparr>]\<rparr>]\<rparr>"
  by (simp add: answered_db_def markParentAnswered_def markAnswered_def ringing_db_def
      ringing_alert_def demo_db_def demo_child_def findById_def findByIdAndUpdate_def
      getUserId_def parent_principal_def Let_def)

text \<open>
  Claim C2. A timer must treat an alert in a terminal status as inert. The second
  timer of the ringing alert fires and \<open>checkCallStatus\<close> loads the alert: it is
  \<open>CALLING_PARENT\<close> with two attempts, so the callback goes on to
  \<open>callEmergency\<close>. Before \<open>callEmergency\<close> loads the alert again, the parent's
  \<open>markParentAnswered\<close> request is served and the alert becomes
  \<open>PARENT_ANSWERED\<close>. \<open>callEmergency\<close> runs all the same: it tells the child's
  device to dial 196, counts an emergency attempt, appends an \<open>EMERGENCY\<close> entry
  and leaves the alert \<open>EMERGENCY_CALLED\<close>. A callback that loads the alert
  after the answer does nothing.
\<close>

theorem timer_escalates_after_parent_answered:
  "findById alert_id (sosAlerts ringing_db) 100 = Some ringing_alert \<and>
   status ringing_alert = CALLING_PARENT \<and> parentCallAttempts ringing_alert = 2 \<and>
   map status (sosAlerts answered_db) = [PARENT_ANSWERED] \<and>
   checkCallStatus_loaded answered_db 61000 100 20 ringing_alert = callEmergency answered_db 61000 100 \<and>
   emitted (checkCallStatus_loaded answered_db 61000 100 20 ringing_alert) =
     [Emit_sos_emergency 11 100 ''196'' 61000] \<and>
   map (\<lambda>a. (status a, emergencyCallAttempts a, map callType (callHistory a)))
     (sosAlerts (out_db (checkCallStatus_loaded answered_db 61000 100 20 ringing_alert))) =
     [(EMERGENCY_CALLED, 1, [PARENT, PARENT, EMERGENCY])] \<and>
   checkCallStatus answered_db 61000 100 20 = unchanged answered_db"
  unfolding answered_db_eval
  by (simp add: checkCallStatus_def checkCallStatus_loaded_def callEmergency_def unchanged_def
      ringing_db_def ringing_alert_def demo_db_def demo_child_def findById_def
      findByIdAndUpdate_def MAX_PARENT_CALL_ATTEMPTS_def EMERGENCY_NUMBER_def Let_def)

subsection \<open>The invariant in serial runs\<close>

lemma find_split:
  "find P xs = Some a \<Longrightarrow> \<exists>pre post. xs = pre @ a # post \<and> (\<forall>x\<in>set pre. \<not> P x) \<and> P a"
proof (induction xs)
  case Nil
  then show ?case by simp
next
  case (Cons x xs)
  show ?case
  proof (cases "P x")
    case True
    with Cons.prems have "x = a" by simp
    with True show ?thesis by (intro exI [of _ "[]"] exI [of _ xs]) simp
  next
    case False
    with Cons.prems have "find P xs = Some a" by simp
    from Cons.IH [OF this] obtain pre post where
      "xs = pre @ a # post" "\<forall>x\<in>set pre. \<not> P x" "P a" by blast
    with False show ?thesis by (intro exI [of _ "x # pre"] exI [of _ post]) simp
  qed
qed

lemma updateFirst_split:
  "\<forall>x\<in>set pre. \<not> P x \<Longrightarrow> P a \<Longrightarrow> updateFirst P f (pre @ a # post) = pre @ f a # post"
  by (induction pre) auto

lemma find_split_eq:
  "\<forall>x\<in>set pre. \<not> P x \<Longrightarrow> P a \<Longrightarrow> find P (pre @ a # post) = Some a"
  by (induction pre) auto

lemma rewrite_found:
  assumes "findById alert_id xs aid = Some a"
    and "alert_id (f a) = aid" and "alert_child (f a) = alert_child a"
  shows "alert_rewritten xs (findByIdAndUpdate alert_id aid f xs) aid (status a) (status (f a))"
proof -
  from assms(1) obtain pre post where
    xs: "xs = pre @ a # post" and pre: "\<forall>x\<in>set pre. \<not> alert_id x = aid" and a: "alert_id a = aid"
    unfolding findById_def by (blast dest: find_split)
  have "findByIdAndUpdate alert_id aid f xs = pre @ f a # post"
    unfolding findByIdAndUpdate_def xs using pre a by (simp add: updateFirst_split)
  then show ?thesis
    unfolding alert_rewritten_def using xs pre a assms(2,3) by blast
qed

lemma rewrite_found_twice:
  assumes "findById alert_id xs aid = Some a"
    and "alert_id (f a) = aid" and "alert_child (f a) = alert_child a"
    and "alert_id (g (f a)) = aid" and "alert_child (g (f a)) = alert_child a"
  shows "alert_rewritten xs (findByIdAndUpdate alert_id aid g (findByIdAndUpdate alert_id aid f xs))
           aid (status a) (status (g (f a)))"
proof -
  from assms(1) obtain pre post where
    xs: "xs = pre @ a # post" and pre: "\<forall>x\<in>set pre. \<not> alert_id x = aid" and a: "alert_id a = aid"
    unfolding findById_def by (blast dest: find_split)
  have "findByIdAndUpdate alert_id aid g (findByIdAndUpdate alert_id aid f xs) = pre @ g (f a) # post"
    unfolding findByIdAndUpdate_def xs using pre a assms(2) by (simp add: updateFirst_split)
  then show ?thesis
    unfolding alert_rewritten_def using xs pre a assms(4,5) by blast
qed

lemma checkCallStatus_effect:
  "next_oid (out_db (checkCallStatus s now aid rid)) = next_oid s \<and>
   ((sosAlerts (out_db (checkCallStatus s now aid rid)) = sosAlerts s \<and>
     timers (checkCallStatus s now aid rid) = []) \<or>
    (\<exists>st. \<not> skipped st \<and>
       alert_rewritten (sosAlerts s) (sosAlerts (out_db (checkCallStatus s now aid rid))) aid st st \<and>
       (timers (checkCallStatus s now aid rid) = [] \<or>
        timers (checkCallStatus s now aid rid) = [(30000, aid, rid)])) \<or>
    (\<exists>st st'. \<not> skipped st \<and> (st' = CALLING_EMERGENCY \<or> st' = EMERGENCY_CALLED) \<and>
       alert_rewritten (sosAlerts s) (sosAlerts (out_db (checkCallStatus s now aid rid))) aid st st' \<and>
       timers (checkCallStatus s now aid rid) = []))"
proof (cases "findById alert_id (sosAlerts s) aid")
  case None
  then show ?thesis by (simp add: checkCallStatus_def)
next
  case (Some a)
  show ?thesis
  proof (cases "skipped (status a)")
    case True
    then show ?thesis using Some by (auto simp: checkCallStatus_def skipped_def)
  next
    case False
    note ns = False
    show ?thesis
    proof (cases "parentCallAttempts a < MAX_PARENT_CALL_ATTEMPTS")
      case True
      let ?f = "\<lambda>x. x\<lparr>parentCallAttempts := parentCallAttempts x + 1,
                      callHistory := callHistory x @
                        [\<lparr>callSid = SOS_CALL_RETRY (parentCallAttempts a + 1), phoneNumber = ''N/A'',
                          callType = PARENT, call_status = ''retry'', answered = False,
                          call_timestamp = now\<rparr>]\<rparr>"
      have aid: "alert_id a = aid"
        using Some by (auto simp: findById_def find_Some_iff)
      have rw: "alert_rewritten (sosAlerts s) (findByIdAndUpdate alert_id aid ?f (sosAlerts s)) aid
                  (status a) (status (?f a))"
        by (rule rewrite_found [OF Some]) (simp_all add: aid)
      show ?thesis
        using Some ns True rw
        by (auto simp: checkCallStatus_def skipped_def throw_def Let_def split: option.splits)
    next
      case False
      let ?f = "\<lambda>x. x\<lparr>status := CALLING_EMERGENCY, emergencyCallAttempts := emergencyCallAttempts x + 1\<rparr>"
      let ?g = "\<lambda>x. x\<lparr>status := EMERGENCY_CALLED,
                      callHistory := callHistory x @
                        [\<lparr>callSid = PHONE_DIALER_196, phoneNumber = EMERGENCY_NUMBER,
                          callType = EMERGENCY, call_status = ''dialer_opened'', answered = False,
                          call_timestamp = now\<rparr>]\<rparr>"
      have aid: "alert_id a = aid"
        using Some by (auto simp: findById_def find_Some_iff)
      have rw1: "alert_rewritten (sosAlerts s) (findByIdAndUpdate alert_id aid ?f (sosAlerts s)) aid
                  (status a) CALLING_EMERGENCY"
        using rewrite_found [OF Some, of ?f] by (simp add: aid)
      have rw2: "alert_rewritten (sosAlerts s)
                  (findByIdAndUpdate alert_id aid ?g (findByIdAndUpdate alert_id aid ?f (sosAlerts s))) aid
                  (status a) EMERGENCY_CALLED"
        using rewrite_found_twice [OF Some, of ?f ?g] by (simp add: aid)
      show ?thesis
        using Some ns False rw1 rw2
        by (auto simp: checkCallStatus_def callEmergency_def skipped_def throw_def Let_def
                 split: option.splits)
    qed
  qed
qed


lemma markParentAnswered_alerts:
  "next_oid (out_db (markParentAnswered s now aid u)) = next_oid s \<and>
   timers (markParentAnswered s now aid u) = [] \<and>
   (sosAlerts (out_db (markParentAnswered s now aid u)) = sosAlerts s \<or>
    (\<exists>st. alert_rewritten (sosAlerts s) (sosAlerts (out_db (markParentAnswered s now aid u)))
            aid st PARENT_ANSWERED))"
proof (cases "findById alert_id (sosAlerts s) aid")
  case None
  then show ?thesis by (simp add: markParentAnswered_def throw_def)
next
  case (Some a)
  have aid: "alert_id a = aid"
    using Some by (auto simp: findById_def find_Some_iff)
  have rw: "alert_rewritten (sosAlerts s)
      (findByIdAndUpdate alert_id aid
         (\<lambda>x. x\<lparr>status := PARENT_ANSWERED, resolvedAt := Some now, resolvedBy := Some q,
                callHistory := map markAnswered (callHistory x)\<rparr>) (sosAlerts s))
      aid (status a) PARENT_ANSWERED" for q
    using rewrite_found [OF Some, of "\<lambda>x. x\<lparr>status := PARENT_ANSWERED, resolvedAt := Some now,
        resolvedBy := Some q, callHistory := map markAnswered (callHistory x)\<rparr>"]
    by (simp add: aid)
  show ?thesis
    using Some rw
    by (auto simp: markParentAnswered_def throw_def Let_def split: option.splits)
qed

lemma resolveAlert_alerts:
  "next_oid (out_db (resolveAlert s now aid u)) = next_oid s \<and>
   timers (resolveAlert s now aid u) = [] \<and>
   (sosAlerts (out_db (resolveAlert s now aid u)) = sosAlerts s \<or>
    (\<exists>st. alert_rewritten (sosAlerts s) (sosAlerts (out_db (resolveAlert s now aid u)))
            aid st RESOLVED))"
proof (cases "findById alert_id (sosAlerts s) aid")
  case None
  then show ?thesis by (simp add: resolveAlert_def throw_def)
next
  case (Some a)
  have aid: "alert_id a = aid"
    using Some by (auto simp: findById_def find_Some_iff)
  have rw: "alert_rewritten (sosAlerts s)
      (findByIdAndUpdate alert_id aid
         (\<lambda>x. x\<lparr>status := RESOLVED, resolvedAt := Some now,
                resolvedBy := (case getUserId u of None \<Rightarrow> resolvedBy x
                               | Some by_user \<Rightarrow> Some by_user)\<rparr>) (sosAlerts s))
      aid (status a) RESOLVED"
    using rewrite_found [OF Some, of "\<lambda>x. x\<lparr>status := RESOLVED, resolvedAt := Some now,
        resolvedBy := (case getUserId u of None \<Rightarrow> resolvedBy x
                       | Some by_user \<Rightarrow> Some by_user)\<rparr>"]
    by (simp add: aid)
  show ?thesis
    using Some rw
    by (auto simp: resolveAlert_def throw_def Let_def split: option.splits if_splits)
qed

lemma rewritten_ids:
  "alert_rewritten xs ys aid st st' \<Longrightarrow> map alert_id ys = map alert_id xs"
  by (auto simp: alert_rewritten_def)

lemma find_app:
  "find P (xs @ ys) = (case find P xs of None \<Rightarrow> find P ys | Some x \<Rightarrow> Some x)"
  by (induction xs) auto

lemma rewritten_find_other:
  "alert_rewritten xs ys aid st st' \<Longrightarrow> aid' \<noteq> aid \<Longrightarrow>
   findById alert_id ys aid' = findById alert_id xs aid'"
  by (auto simp: alert_rewritten_def findById_def find_app split: option.splits)

lemma rewritten_find_same:
  "alert_rewritten xs ys aid st st' \<Longrightarrow>
   (\<exists>a. findById alert_id xs aid = Some a \<and> status a = st) \<and>
   (\<exists>a'. findById alert_id ys aid = Some a' \<and> status a' = st')"
  by (auto simp: alert_rewritten_def findById_def find_split_eq)

lemma rewritten_active_count:
  assumes "alert_rewritten xs ys aid st st'" and "isActiveStatus st' \<longrightarrow> isActiveStatus st"
  shows "length (filter (\<lambda>a. alert_child a = c \<and> isActiveStatus (status a)) ys) \<le>
         length (filter (\<lambda>a. alert_child a = c \<and> isActiveStatus (status a)) xs)"
  using assms by (auto simp: alert_rewritten_def)

lemma rewritten_at_most_one_active:
  assumes "alert_rewritten (sosAlerts s) (sosAlerts s') aid st st'"
    and "isActiveStatus st' \<longrightarrow> isActiveStatus st"
    and "at_most_one_active s"
  shows "at_most_one_active s'"
  unfolding at_most_one_active_iff
proof
  fix c
  have "length (activeAlertsOf s' c) \<le> length (activeAlertsOf s c)"
    unfolding activeAlertsOf_code by (rule rewritten_active_count [OF assms(1,2)])
  moreover have "length (activeAlertsOf s c) \<le> 1"
    using assms(3) by (simp add: at_most_one_active_iff)
  ultimately show "length (activeAlertsOf s' c) \<le> 1" by simp
qed

lemma same_alerts_at_most_one_active:
  "sosAlerts s' = sosAlerts s \<Longrightarrow> at_most_one_active s \<Longrightarrow> at_most_one_active s'"
  by (simp add: at_most_one_active_def activeAlertsOf_code)

lemma timer_ok_same:
  "sosAlerts s' = sosAlerts s \<Longrightarrow> next_oid s' = next_oid s \<Longrightarrow> timer_ok s' aid = timer_ok s aid"
  by (simp add: timer_ok_def)

lemma timer_ok_rewritten_other:
  "alert_rewritten (sosAlerts s) (sosAlerts s') aid st st' \<Longrightarrow> next_oid s' = next_oid s \<Longrightarrow>
   aid' \<noteq> aid \<Longrightarrow> timer_ok s' aid' = timer_ok s aid'"
  by (simp add: timer_ok_def rewritten_find_other)

lemma timer_ok_rewritten_same:
  "alert_rewritten (sosAlerts s) (sosAlerts s') aid st st' \<Longrightarrow> next_oid s' = next_oid s \<Longrightarrow>
   aid < next_oid s \<Longrightarrow> st' = CALLING_PARENT \<or> skipped st' \<Longrightarrow> timer_ok s' aid"
  using rewritten_find_same [of "sosAlerts s" "sosAlerts s'" aid st st']
  by (auto simp: timer_ok_def)

lemma timer_ok_status:
  "alert_rewritten (sosAlerts s) ys aid st st' \<Longrightarrow> timer_ok s aid \<Longrightarrow> \<not> skipped st \<Longrightarrow>
   st = CALLING_PARENT"
  using rewritten_find_same [of "sosAlerts s" ys aid st st']
  by (auto simp: timer_ok_def)

lemma distinct_fst_remove1:
  "distinct (map fst ts) \<Longrightarrow> (a, b) \<in> set ts \<Longrightarrow>
   distinct (map fst (remove1 (a, b) ts)) \<and> (\<forall>t\<in>set (remove1 (a, b) ts). fst t \<noteq> a)"
proof (induction ts)
  case Nil
  then show ?case by simp
next
  case (Cons t ts)
  show ?case
  proof (cases "t = (a, b)")
    case True
    then show ?thesis using Cons.prems by (auto simp: image_iff)
  next
    case False
    then have "(a, b) \<in> set ts" using Cons.prems by auto
    moreover have "distinct (map fst ts)" using Cons.prems by simp
    ultimately have ih: "distinct (map fst (remove1 (a, b) ts)) \<and>
        (\<forall>t\<in>set (remove1 (a, b) ts). fst t \<noteq> a)"
      by (rule Cons.IH [rotated])
    have "fst t \<noteq> a"
      using Cons.prems \<open>(a, b) \<in> set ts\<close> by (auto simp: image_iff)
    moreover have "fst t \<notin> fst ` set (remove1 (a, b) ts)"
    proof -
      have "set (remove1 (a, b) ts) \<subseteq> set ts"
        by (rule set_remove1_subset)
      then have "fst ` set (remove1 (a, b) ts) \<subseteq> fst ` set ts"
        by (rule image_mono)
      moreover have "fst t \<notin> fst ` set ts"
        using Cons.prems by simp
      ultimately show ?thesis by blast
    qed
    ultimately show ?thesis
      using False ih by auto
  qed
qed


lemma inv_same:
  assumes inv: "serial_inv sys"
    and alerts: "sosAlerts s' = sosAlerts (sys_db sys)"
    and noid: "next_oid s' = next_oid (sys_db sys)"
    and dist: "distinct (map fst ts)"
    and sub: "set ts \<subseteq> set (pending sys)"
  shows "serial_inv \<lparr>sys_db = s', pending = ts\<rparr>"
proof -
  have "at_most_one_active s'"
    using inv alerts by (auto simp: serial_inv_def intro: same_alerts_at_most_one_active)
  moreover have "list_all (\<lambda>a. alert_id a < next_oid s') (sosAlerts s')"
    using inv alerts noid by (simp add: serial_inv_def)
  moreover have "list_all (\<lambda>t. timer_ok s' (fst t)) ts"
    using inv sub timer_ok_same [OF alerts noid]
    by (auto simp: serial_inv_def list_all_iff)
  ultimately show ?thesis
    using dist by (simp add: serial_inv_def)
qed

lemma inv_rewritten:
  assumes inv: "serial_inv sys"
    and rw: "alert_rewritten (sosAlerts (sys_db sys)) (sosAlerts s') aid st st'"
    and noid: "next_oid s' = next_oid (sys_db sys)"
    and act: "isActiveStatus st' \<longrightarrow> isActiveStatus st"
    and dist: "distinct (map fst ts)"
    and ts: "\<forall>t\<in>set ts. (t \<in> set (pending sys) \<and> fst t \<noteq> aid) \<or>
               (fst t = aid \<and> aid < next_oid s' \<and> (st' = CALLING_PARENT \<or> skipped st'))"
  shows "serial_inv \<lparr>sys_db = s', pending = ts\<rparr>"
proof -
  have "at_most_one_active s'"
    using inv by (auto simp: serial_inv_def intro: rewritten_at_most_one_active [OF rw act])
  moreover have "list_all (\<lambda>a. alert_id a < next_oid s') (sosAlerts s')"
  proof -
    have "list_all (\<lambda>i. i < next_oid s') (map alert_id (sosAlerts s'))"
      unfolding rewritten_ids [OF rw] using inv noid
      by (simp add: serial_inv_def list_all_iff)
    then show ?thesis by (simp add: list_all_iff)
  qed
  moreover have "list_all (\<lambda>t. timer_ok s' (fst t)) ts"
    unfolding list_all_iff
  proof
    fix t assume t: "t \<in> set ts"
    from ts t consider
      (other) "t \<in> set (pending sys)" "fst t \<noteq> aid" |
      (same) "fst t = aid" "aid < next_oid s'" "st' = CALLING_PARENT \<or> skipped st'"
      by blast
    then show "timer_ok s' (fst t)"
    proof cases
      case other
      then have "timer_ok (sys_db sys) (fst t)"
        using inv by (auto simp: serial_inv_def list_all_iff)
      then show ?thesis
        using timer_ok_rewritten_other [OF rw noid other(2)] by simp
    next
      case same
      then show ?thesis
        using timer_ok_rewritten_same [OF rw noid] noid by simp
    qed
  qed
  ultimately show ?thesis
    using dist by (simp add: serial_inv_def)
qed

lemma inv_Answer:
  assumes inv: "serial_inv sys"
  shows "serial_inv (serial_step sys (now, Answer aid u))"
proof -
  let ?r = "markParentAnswered (sys_db sys) now aid u"
  have e: "next_oid (out_db ?r) = next_oid (sys_db sys)" "timers ?r = []"
    using markParentAnswered_alerts [of "sys_db sys" now aid u] by simp_all
  have d: "distinct (map fst (pending sys))"
    using inv by (simp add: serial_inv_def)
  consider (same) "sosAlerts (out_db ?r) = sosAlerts (sys_db sys)" |
    (rw) st where "alert_rewritten (sosAlerts (sys_db sys)) (sosAlerts (out_db ?r)) aid st PARENT_ANSWERED"
    using markParentAnswered_alerts [of "sys_db sys" now aid u] by blast
  then have "serial_inv \<lparr>sys_db = out_db ?r, pending = pending sys\<rparr>"
  proof cases
    case same
    then show ?thesis by (intro inv_same [OF inv _ e(1) d]) simp_all
  next
    case rw
    have "\<forall>t\<in>set (pending sys). (t \<in> set (pending sys) \<and> fst t \<noteq> aid) \<or>
        (fst t = aid \<and> aid < next_oid (out_db ?r) \<and>
         (PARENT_ANSWERED = CALLING_PARENT \<or> skipped PARENT_ANSWERED))"
      using inv e(1) by (auto simp: serial_inv_def list_all_iff timer_ok_def skipped_def)
    then show ?thesis
      by (intro inv_rewritten [OF inv rw e(1) _ d]) (simp_all add: isActiveStatus_def)
  qed
  then show ?thesis by (simp add: Let_def e)
qed

lemma inv_Resolve:
  assumes inv: "serial_inv sys"
  shows "serial_inv (serial_step sys (now, Resolve aid u))"
proof -
  let ?r = "resolveAlert (sys_db sys) now aid u"
  have e: "next_oid (out_db ?r) = next_oid (sys_db sys)" "timers ?r = []"
    using resolveAlert_alerts [of "sys_db sys" now aid u] by simp_all
  have d: "distinct (map fst (pending sys))"
    using inv by (simp add: serial_inv_def)
  consider (same) "sosAlerts (out_db ?r) = sosAlerts (sys_db sys)" |
    (rw) st where "alert_rewritten (sosAlerts (sys_db sys)) (sosAlerts (out_db ?r)) aid st RESOLVED"
    using resolveAlert_alerts [of "sys_db sys" now aid u] by blast
  then have "serial_inv \<lparr>sys_db = out_db ?r, pending = pending sys\<rparr>"
  proof cases
    case same
    then show ?thesis by (intro inv_same [OF inv _ e(1) d]) simp_all
  next
    case rw
    have "\<forall>t\<in>set (pending sys). (t \<in> set (pending sys) \<and> fst t \<noteq> aid) \<or>
        (fst t = aid \<and> aid < next_oid (out_db ?r) \<and>
         (RESOLVED = CALLING_PARENT \<or> skipped RESOLVED))"
      using inv e(1) by (auto simp: serial_inv_def list_all_iff timer_ok_def skipped_def)
    then show ?thesis
      by (intro inv_rewritten [OF inv rw e(1) _ d]) (simp_all add: isActiveStatus_def)
  qed
  then show ?thesis by (simp add: Let_def e)
qed


lemma inv_Fire:
  assumes inv: "serial_inv sys"
  shows "serial_inv (serial_step sys (now, Fire aid rid))"
proof (cases "(aid, rid) \<in> set (pending sys)")
  case False
  then show ?thesis using inv by simp
next
  case True
  let ?r = "checkCallStatus (sys_db sys) now aid rid"
  let ?rest = "remove1 (aid, rid) (pending sys)"
  have noid: "next_oid (out_db ?r) = next_oid (sys_db sys)"
    using checkCallStatus_effect [of "sys_db sys" now aid rid] by simp
  have ok: "timer_ok (sys_db sys) aid"
    using inv True by (auto simp: serial_inv_def list_all_iff)
  have lt: "aid < next_oid (out_db ?r)"
    using ok noid by (simp add: timer_ok_def)
  have rest: "distinct (map fst ?rest)" "\<forall>t\<in>set ?rest. fst t \<noteq> aid"
    using distinct_fst_remove1 [OF _ True] inv by (simp_all add: serial_inv_def)
  have sub: "set ?rest \<subseteq> set (pending sys)"
    by (rule set_remove1_subset)
  consider
    (same) "sosAlerts (out_db ?r) = sosAlerts (sys_db sys)" "timers ?r = []" |
    (retry) st where "\<not> skipped st"
      "alert_rewritten (sosAlerts (sys_db sys)) (sosAlerts (out_db ?r)) aid st st"
      "timers ?r = [] \<or> timers ?r = [(30000, aid, rid)]" |
    (escalate) st st' where "\<not> skipped st" "st' = CALLING_EMERGENCY \<or> st' = EMERGENCY_CALLED"
      "alert_rewritten (sosAlerts (sys_db sys)) (sosAlerts (out_db ?r)) aid st st'"
      "timers ?r = []"
    using checkCallStatus_effect [of "sys_db sys" now aid rid] by blast
  then have "serial_inv \<lparr>sys_db = out_db ?r, pending = ?rest @ map snd (timers ?r)\<rparr>"
  proof cases
    case same
    show ?thesis
      unfolding same(2) using rest(1) sub
      by (intro inv_same [OF inv same(1) noid]) simp_all
  next
    case retry
    have st: "st = CALLING_PARENT"
      by (rule timer_ok_status [OF retry(2) ok retry(1)])
    have d: "distinct (map fst (?rest @ map snd (timers ?r)))"
      using retry(3) rest by (auto simp: image_iff)
    have ts: "\<forall>t\<in>set (?rest @ map snd (timers ?r)).
        (t \<in> set (pending sys) \<and> fst t \<noteq> aid) \<or>
        (fst t = aid \<and> aid < next_oid (out_db ?r) \<and> (st = CALLING_PARENT \<or> skipped st))"
      using retry(3) rest(2) sub lt st by auto
    show ?thesis
      by (rule inv_rewritten [OF inv retry(2) noid _ d ts]) simp
  next
    case escalate
    have st: "st = CALLING_PARENT"
      by (rule timer_ok_status [OF escalate(3) ok escalate(1)])
    have ts: "\<forall>t\<in>set ?rest.
        (t \<in> set (pending sys) \<and> fst t \<noteq> aid) \<or>
        (fst t = aid \<and> aid < next_oid (out_db ?r) \<and> (st' = CALLING_PARENT \<or> skipped st'))"
      using rest(2) sub by auto
    have "serial_inv \<lparr>sys_db = out_db ?r, pending = ?rest\<rparr>"
      by (rule inv_rewritten [OF inv escalate(3) noid _ rest(1) ts])
         (simp add: st isActiveStatus_def)
    then show ?thesis by (simp add: escalate(4))
  qed
  then show ?thesis using True by (simp add: Let_def)
qed

lemma inv_Trigger:
  assumes inv: "serial_inv sys"
  shows "serial_inv (serial_step sys (now, Trigger childId u))"
proof -
  let ?s = "sys_db sys"
  let ?r = "triggerSos ?s now childId u"
  have d: "distinct (map fst (pending sys))"
    using inv by (simp add: serial_inv_def)
  have unchanged: "serial_inv \<lparr>sys_db = out_db ?r, pending = pending sys @ map snd (timers ?r)\<rparr>"
    if "out_db ?r = ?s" "timers ?r = []"
    using that inv_same [OF inv _ _ d, of ?s] by simp
  show ?thesis
  proof (cases "returned ?r")
    case (Inl e)
    then have "?r = throw ?s e" by (rule triggerSos_failure_unchanged)
    then have "out_db ?r = ?s" "timers ?r = []" by (simp_all add: throw_def)
    then show ?thesis using unchanged by (simp add: Let_def)
  next
    case (Inr res)
    obtain alert roomId action where res: "res = (alert, roomId, action)"
      by (cases res) auto
    note ret = Inr [unfolded res]
    show ?thesis
    proof (cases "findActiveAlert ?s childId")
      case (Some active)
      then have "out_db ?r = ?s" "timers ?r = []"
        using triggerSos_existing [OF Some ret] by simp_all
      then show ?thesis using unchanged by (simp add: Let_def)
    next
      case None
      have ids: "\<forall>a\<in>set (sosAlerts ?s). alert_id a < next_oid ?s"
        using inv by (simp add: serial_inv_def list_all_iff)
      then have fresh: "\<forall>a\<in>set (sosAlerts ?s). alert_id a \<noteq> next_oid ?s"
        by auto
      from triggerSos_new_explicit [OF fresh None ret]
      obtain n where
        db: "out_db ?r = ?s\<lparr>sosAlerts := sosAlerts ?s @ [n], next_oid := Suc (next_oid ?s)\<rparr>" and
        n: "alert_id n = next_oid ?s" "status n = CALLING_PARENT" and
        tm: "timers ?r = [(30000, next_oid ?s, roomId)]"
        by auto
      have one: "at_most_one_active (out_db ?r)"
        using inv by (auto simp: serial_inv_def intro: triggerSos_preserves_at_most_one_active)
      have ids': "list_all (\<lambda>a. alert_id a < next_oid (out_db ?r)) (sosAlerts (out_db ?r))"
        unfolding db using ids n by (auto simp: list_all_iff)
      have old: "\<forall>t\<in>set (pending sys). timer_ok ?s (fst t)"
        using inv by (simp add: serial_inv_def list_all_iff)
      have dist: "distinct (map fst (pending sys @ [(next_oid ?s, roomId)]))"
        using d old by (auto simp: timer_ok_def image_iff)
      have ok_old: "timer_ok (out_db ?r) (fst t)" if "t \<in> set (pending sys)" for t
      proof -
        have a: "timer_ok ?s (fst t)" using old that by simp
        then have "fst t \<noteq> alert_id n" by (simp add: timer_ok_def n)
        then have "findById alert_id (sosAlerts ?s @ [n]) (fst t) =
                   findById alert_id (sosAlerts ?s) (fst t)"
          by (auto simp: findById_def find_app split: option.splits)
        then show ?thesis using a by (simp add: timer_ok_def db)
      qed
      have ok_new: "timer_ok (out_db ?r) (next_oid ?s)"
        using fresh n by (simp add: timer_ok_def db findById_def find_append_fresh)
      have "serial_inv \<lparr>sys_db = out_db ?r, pending = pending sys @ [(next_oid ?s, roomId)]\<rparr>"
        using one ids' dist ok_old ok_new by (simp add: serial_inv_def list_all_iff)
      then show ?thesis by (simp add: Let_def tm)
    qed
  qed
qed

lemma serial_step_inv: "serial_inv sys \<Longrightarrow> serial_inv (serial_step sys c)"
proof -
  assume inv: "serial_inv sys"
  obtain now call where c: "c = (now, call)" by (cases c) auto
  show ?thesis
    unfolding c by (cases call) (simp_all only: inv_Trigger [OF inv] inv_Fire [OF inv]
      inv_Answer [OF inv] inv_Resolve [OF inv])
qed

lemma serial_run_inv: "serial_inv sys \<Longrightarrow> serial_inv (foldl serial_step sys cs)"
  by (induction cs arbitrary: sys) (simp_all add: serial_step_inv)

lemma serial_at_most_one_active:
  assumes "sosAlerts s = []"
  shows "at_most_one_active (sys_db (foldl serial_step \<lparr>sys_db = s, pending = []\<rparr> cs))"
proof -
  have "serial_inv \<lparr>sys_db = s, pending = []\<rparr>"
    using assms by (simp add: serial_inv_def at_most_one_active_def)
  then have "serial_inv (foldl serial_step \<lparr>sys_db = s, pending = []\<rparr> cs)"
    by (rule serial_run_inv)
  then show ?thesis by (simp add: serial_inv_def)
qed

text \<open>
  In every state of a serial run a pending timer belongs to an alert that is still
  ringing the parent or that \<open>checkCallStatus\<close> will skip: no timer is left for an
  alert in \<open>CALLING_EMERGENCY\<close> or \<open>EMERGENCY_CALLED\<close>.
\<close>

lemma serial_pending_timers:
  assumes "sosAlerts s = []"
  shows "list_all (\<lambda>t. timer_ok (sys_db (foldl serial_step \<lparr>sys_db = s, pending = []\<rparr> cs)) (fst t))
           (pending (foldl serial_step \<lparr>sys_db = s, pending = []\<rparr> cs))"
proof -
  have "serial_inv \<lparr>sys_db = s, pending = []\<rparr>"
    using assms by (simp add: serial_inv_def at_most_one_active_def)
  then have "serial_inv (foldl serial_step \<lparr>sys_db = s, pending = []\<rparr> cs)"
    by (rule serial_run_inv)
  then show ?thesis by (simp add: serial_inv_def)
qed

text \<open>
  In a serial run that started without alerts, a timer that fires on an alert in
  any of the four terminal statuses does nothing: the only terminal alerts that
  still have a timer are the ones \<open>checkCallStatus\<close> skips.
\<close>

lemma serial_timer_inert_on_terminal:
  assumes "sosAlerts s = []"
    and "(alertId, roomId) \<in> set (pending (foldl serial_step \<lparr>sys_db = s, pending = []\<rparr> cs))"
    and "findById alert_id (sosAlerts (sys_db (foldl serial_step \<lparr>sys_db = s, pending = []\<rparr> cs)))
           alertId = Some a"
    and "status a = RESOLVED \<or> status a = CANCELLED \<or> status a = PARENT_ANSWERED \<or>
         status a = EMERGENCY_CALLED"
  shows "checkCallStatus (sys_db (foldl serial_step \<lparr>sys_db = s, pending = []\<rparr> cs)) now alertId roomId =
         unchanged (sys_db (foldl serial_step \<lparr>sys_db = s, pending = []\<rparr> cs))"
proof -
  have "timer_ok (sys_db (foldl serial_step \<lparr>sys_db = s, pending = []\<rparr> cs)) alertId"
    using serial_pending_timers [OF assms(1), of cs] assms(2)
    by (auto simp: list_all_iff)
  then have "skipped (status a)"
    using assms(3,4) by (auto simp: timer_ok_def)
  then show ?thesis
    using assms(3) by (simp add: checkCallStatus_def unchanged_def skipped_def)
qed

text \<open>
  \<open>triggerSos\<close> when nothing runs between its reads and its writes. The call
  returns exactly when the actor is the child itself and the child, its parent and
  their active room exist; a call that throws leaves the store as it was. If some
  stored alert of the child is \<open>PENDING\<close>, \<open>CALLING_PARENT\<close> or
  \<open>CALLING_EMERGENCY\<close>, the call returns such an alert of the child and changes
  nothing: the store is the same, nothing is emitted and no timer is set. If none
  is, the call appends one alert, with a fresh id, status \<open>CALLING_PARENT\<close> and
  \<open>parentCallAttempts = 1\<close>, and leaves the id, child, status and counters of every
  stored alert as they were. So the call keeps the invariant, and every state of
  a serial run that started without alerts has it.
\<close>

lemma triggerSos_outcome_pinned:
  "(case returned (triggerSos s now childId u) of
       Inl e \<Rightarrow> out_db (triggerSos s now childId u) = s
     | Inr (alert, roomId, action) \<Rightarrow>
         (if \<exists>a\<in>set (sosAlerts s). alert_child a = childId \<and>
               (status a = PENDING \<or> status a = CALLING_PARENT \<or> status a = CALLING_EMERGENCY)
          then
            alert \<in> set (sosAlerts s) \<and> alert_child alert = childId \<and>
            (status alert = PENDING \<or> status alert = CALLING_PARENT \<or>
             status alert = CALLING_EMERGENCY) \<and>
            out_db (triggerSos s now childId u) = s \<and>
            emitted (triggerSos s now childId u) = [] \<and>
            timers (triggerSos s now childId u) = []
          else
            status alert = CALLING_PARENT \<and> parentCallAttempts alert = 1 \<and>
            alert_child alert = childId \<and> alert_id alert = next_oid s \<and>
            map (\<lambda>a. (alert_id a, alert_child a, status a, parentCallAttempts a,
                      emergencyCallAttempts a))
                (sosAlerts (out_db (triggerSos s now childId u))) =
            map (\<lambda>a. (alert_id a, alert_child a, status a, parentCallAttempts a,
                      emergencyCallAttempts a))
                (sosAlerts s) @ [(next_oid s, childId, CALLING_PARENT, 1, 0)]))"
proof (cases "returned (triggerSos s now childId u)")
  case (Inl e)
  then show ?thesis by (simp add: triggerSos_failure_unchanged throw_def)
next
  case (Inr res)
  obtain alert roomId action where res: "res = (alert, roomId, action)"
    by (cases res) auto
  show ?thesis
  proof (cases "findActiveAlert s childId")
    case (Some active)
    then have "active \<in> set (sosAlerts s)" "alert_child active = childId"
      "status active = PENDING \<or> status active = CALLING_PARENT \<or> status active = CALLING_EMERGENCY"
      by (auto simp: findActiveAlert_def isActiveStatus_def find_Some_iff)
    then show ?thesis
      using triggerSos_existing [OF Some Inr [unfolded res]] Inr res by auto
  next
    case None
    then have "\<not> (\<exists>a\<in>set (sosAlerts s). alert_child a = childId \<and>
               (status a = PENDING \<or> status a = CALLING_PARENT \<or> status a = CALLING_EMERGENCY))"
      by (auto simp: findActiveAlert_def isActiveStatus_def find_None_iff)
    then show ?thesis
      using triggerSos_new [OF None Inr [unfolded res]] Inr res by simp
  qed
qed

lemma triggerSos_serial:
  "(sosAlerts s0 = [] \<longrightarrow>
      at_most_one_active (sys_db (foldl serial_step \<lparr>sys_db = s0, pending = []\<rparr> calls))) \<and>
    (at_most_one_active s \<longrightarrow> at_most_one_active (out_db (triggerSos s now childId u))) \<and>
    ((\<exists>res. returned (triggerSos s now childId u) = Inr res) =
       (p_type u = ''child'' \<and> getUserId u = Some childId \<and>
        (\<exists>child. findById child_id (children s) childId = Some child \<and>
           findById user_id (users s) (child_parent child) \<noteq> None \<and>
           find (\<lambda>r. room_parent r = child_parent child \<and> room_child r = childId \<and> isActive r)
             (rooms s) \<noteq> None))) \<and>
    (case returned (triggerSos s now childId u) of
       Inl e \<Rightarrow> out_db (triggerSos s now childId u) = s
     | Inr (alert, roomId, action) \<Rightarrow>
         (if \<exists>a\<in>set (sosAlerts s). alert_child a = childId \<and>
               (status a = PENDING \<or> status a = CALLING_PARENT \<or> status a = CALLING_EMERGENCY)
          then
            alert \<in> set (sosAlerts s) \<and> alert_child alert = childId \<and>
            (status alert = PENDING \<or> status alert = CALLING_PARENT \<or>
             status alert = CALLING_EMERGENCY) \<and>
            out_db (triggerSos s now childId u) = s \<and>
            emitted (triggerSos s now childId u) = [] \<and>
            timers (triggerSos s now childId u) = []
          else
            status alert = CALLING_PARENT \<and> parentCallAttempts alert = 1 \<and>
            alert_child alert = childId \<and> alert_id alert = next_oid s \<and>
            map (\<lambda>a. (alert_id a, alert_child a, status a, parentCallAttempts a,
                      emergencyCallAttempts a))
                (sosAlerts (out_db (triggerSos s now childId u))) =
            map (\<lambda>a. (alert_id a, alert_child a, status a, parentCallAttempts a,
                      emergencyCallAttempts a))
                (sosAlerts s) @ [(next_oid s, childId, CALLING_PARENT, 1, 0)]))"
  using serial_at_most_one_active [of s0 calls]
    triggerSos_preserves_at_most_one_active [of s now childId u]
    triggerSos_returns_iff [of s now childId u]
    triggerSos_outcome_pinned [of s now childId u]
  by (intro conjI impI)

lemma run_demo:
  "foldl serial_step \<lparr>sys_db = demo_db, pending = []\<rparr>
     [(1000, Trigger 11 (child_principal 11)), (31000, Fire 100 20), (61000, Fire 100 20)] =
   \<lparr>sys_db = escalated_db, pending = []\<rparr>"
proof -
  have r1: "checkCallStatus (out_db (triggerSos demo_db 1000 11 (child_principal 11))) 31000 100 20 =
      \<lparr>out_db = ringing_db,
       emitted = [Emit_room_SOS_CALL_OFFER 20 20 11 100 (Some 2) 31000],
       timers = [(30000, 100, 20)], returned = Inr ()\<rparr>"
    unfolding triggerSos_demo
    by (simp add: checkCallStatus_def ringing_db_def ringing_alert_def
        demo_db_def demo_child_def findById_def findByIdAndUpdate_def
        MAX_PARENT_CALL_ATTEMPTS_def Let_def)
  have r2: "checkCallStatus ringing_db 61000 100 20 =
      \<lparr>out_db = escalated_db,
       emitted = [Emit_sos_emergency 11 100 ''196'' 61000],
       timers = [], returned = Inr ()\<rparr>"
    by (simp add: checkCallStatus_def callEmergency_def ringing_db_def ringing_alert_def
        escalated_db_def escalated_alert_def demo_db_def demo_child_def findById_def
        findByIdAndUpdate_def MAX_PARENT_CALL_ATTEMPTS_def EMERGENCY_NUMBER_def Let_def)
  have s1: "serial_step \<lparr>sys_db = demo_db, pending = []\<rparr> (1000, Trigger 11 (child_principal 11)) =
      \<lparr>sys_db = out_db (triggerSos demo_db 1000 11 (child_principal 11)), pending = [(100, 20)]\<rparr>"
    by (simp add: Let_def) (simp add: triggerSos_demo)
  have s2: "serial_step \<lparr>sys_db = out_db (triggerSos demo_db 1000 11 (child_principal 11)),
                     pending = [(100, 20)]\<rparr> (31000, Fire 100 20) =
      \<lparr>sys_db = ringing_db, pending = [(100, 20)]\<rparr>"
    by (simp add: Let_def r1)
  have s3: "serial_step \<lparr>sys_db = ringing_db, pending = [(100, 20)]\<rparr> (61000, Fire 100 20) =
      \<lparr>sys_db = escalated_db, pending = []\<rparr>"
    by (simp add: Let_def r2)
  show ?thesis
    by (simp only: foldl.simps s1 s2 s3)
qed

lemma triggerSos_serial_example:
  "sosAlerts demo_db = [] \<and>
   at_most_one_active escalated_db \<and>
   at_most_one_active demo_db \<and>
   findActiveAlert demo_db 11 = None \<and>
   (\<exists>alert. returned (triggerSos demo_db 1000 11 (child_principal 11)) = Inr (alert, 20, ''CALL_INITIATED'') \<and>
      alert_id alert = 100 \<and> status alert = CALLING_PARENT \<and> parentCallAttempts alert = 1) \<and>
   at_most_one_active (out_db (triggerSos demo_db 1000 11 (child_principal 11))) \<and>
   (\<exists>alert. returned (triggerSos (out_db (triggerSos demo_db 1000 11 (child_principal 11))) 2000 11
                (child_principal 11)) = Inr (alert, 20, ''CALL_INITIATED'') \<and>
      alert_id alert = 100 \<and> parentCallAttempts alert = 1) \<and>
   out_db (triggerSos (out_db (triggerSos demo_db 1000 11 (child_principal 11))) 2000 11 (child_principal 11)) =
   out_db (triggerSos demo_db 1000 11 (child_principal 11))"
proof -
  have e: "sosAlerts demo_db = []"
    by (simp add: demo_db_def)
  have a: "at_most_one_active demo_db"
    by (simp add: at_most_one_active_def demo_db_def)
  note first = triggerSos_serial [where ?s0.0 = demo_db
      and calls = "[(1000, Trigger 11 (child_principal 11)), (31000, Fire 100 20), (61000, Fire 100 20)]"
      and s = demo_db and now = 1000 and childId = 11 and u = "child_principal 11"]
  have "at_most_one_active (sys_db (foldl serial_step \<lparr>sys_db = demo_db, pending = []\<rparr>
      [(1000, Trigger 11 (child_principal 11)), (31000, Fire 100 20), (61000, Fire 100 20)]))"
    using first e by blast
  then have r: "at_most_one_active escalated_db"
    unfolding run_demo by simp
  have b: "at_most_one_active (out_db (triggerSos demo_db 1000 11 (child_principal 11)))"
    using first a by simp
  note ev = triggerSos_demo
  have n: "findActiveAlert demo_db 11 = None"
    by (simp add: findActiveAlert_def demo_db_def)
  have ev2: "triggerSos (out_db (triggerSos demo_db 1000 11 (child_principal 11))) 2000 11 (child_principal 11) =
    \<lparr>out_db = out_db (triggerSos demo_db 1000 11 (child_principal 11)),
     emitted = [], timers = [],
     returned = Inr (\<lparr>alert_id = 100, alert_child = 11, alert_parent = 12, status = CALLING_PARENT,
           parentCallAttempts = 1, emergencyCallAttempts = 0,
           callHistory = [\<lparr>callSid = SOS_CALL 100, phoneNumber = ''+21612345678'',
                           callType = PARENT, call_status = ''initiated'', answered = False,
                           call_timestamp = 1000\<rparr>],
           resolvedAt = None, resolvedBy = None,
           metadata = \<lparr>meta_roomId = 20, childLocation = None, triggeredAt = 1000\<rparr>\<rparr>,
         20, ''CALL_INITIATED'')\<rparr>"
    unfolding ev
    by (simp add: triggerSos_def demo_db_def demo_child_def demo_room_def child_principal_def
        getUserId_def findById_def findActiveAlert_def isActiveStatus_def Let_def)
  have c3: "\<exists>alert. returned (triggerSos demo_db 1000 11 (child_principal 11)) = Inr (alert, 20, ''CALL_INITIATED'') \<and>
      alert_id alert = 100 \<and> status alert = CALLING_PARENT \<and> parentCallAttempts alert = 1"
    unfolding ev by simp
  have c5: "\<exists>alert. returned (triggerSos (out_db (triggerSos demo_db 1000 11 (child_principal 11))) 2000 11
                (child_principal 11)) = Inr (alert, 20, ''CALL_INITIATED'') \<and>
      alert_id alert = 100 \<and> parentCallAttempts alert = 1"
    unfolding ev2 by simp
  have c6: "out_db (triggerSos (out_db (triggerSos demo_db 1000 11 (child_principal 11))) 2000 11 (child_principal 11)) =
   out_db (triggerSos demo_db 1000 11 (child_principal 11))"
    unfolding ev2 by simp
  show ?thesis
    using e r a n c3 b c5 c6 by blast
qed

text \<open>\<open>triggerSos\<close> is its reading part followed by its writing part.\<close>

lemma triggerSos_in_phases:
  "triggerSos s now childId u =
     (case triggerSos_lookup s childId u of
        Inl e \<Rightarrow> throw s e
      | Inr (child, parent, room, active) \<Rightarrow>
          (case active of
             Some activeAlert \<Rightarrow>
               \<lparr>out_db = s, emitted = [], timers = [],
                returned = Inr (activeAlert, room_id room, ''CALL_INITIATED'')\<rparr>
           | None \<Rightarrow> triggerSos_create s now childId child parent room))"
  by (simp add: triggerSos_def triggerSos_lookup_def triggerSos_create_def Let_def
           split: option.splits)

lemma two_triggers_db_eval:
  "map (\<lambda>a. (alert_id a, alert_child a, status a, parentCallAttempts a)) (sosAlerts two_triggers_db) =
     [(100, 11, CALLING_PARENT, 1), (101, 11, CALLING_PARENT, 1)]"
  by (simp add: two_triggers_db_def triggerSos_create_def demo_db_def demo_child_def
      demo_parent_def demo_room_def findByIdAndUpdate_def orNA_def Let_def)

text \<open>
  Claim C1. No child may have more than one alert in a non-terminal status at any
  time. Child 11 has no alert and sends two trigger requests, the second before
  the first has finished. Both requests run their reading part on the same store:
  both pass the checks and both find no active alert. Each then runs its writing
  part. The store ends with two alerts of child 11 in \<open>CALLING_PARENT\<close>, with the
  ids 100 and 101, each returned to its request with a timer of its own, and the
  invariant is broken. Served one after the other, the same two requests leave one
  alert, and the second request returns the alert of the first.
\<close>

theorem concurrent_triggers_two_active_alerts:
  "sosAlerts demo_db = [] \<and>
   triggerSos_lookup demo_db 11 (child_principal 11) =
     Inr (demo_child, demo_parent, demo_room, None) \<and>
   map (\<lambda>a. (alert_id a, alert_child a, status a, parentCallAttempts a)) (sosAlerts two_triggers_db) =
     [(100, 11, CALLING_PARENT, 1), (101, 11, CALLING_PARENT, 1)] \<and>
   timers (triggerSos_create demo_db 1000 11 demo_child demo_parent demo_room) = [(30000, 100, 20)] \<and>
   timers (triggerSos_create
            (out_db (triggerSos_create demo_db 1000 11 demo_child demo_parent demo_room))
            1001 11 demo_child demo_parent demo_room) = [(30000, 101, 20)] \<and>
   length (activeAlertsOf two_triggers_db 11) = 2 \<and>
   \<not> at_most_one_active two_triggers_db \<and>
   map (\<lambda>a. (alert_id a, alert_child a, status a, parentCallAttempts a))
     (sosAlerts (out_db (triggerSos (out_db (triggerSos demo_db 1000 11 (child_principal 11)))
                           1001 11 (child_principal 11)))) =
     [(100, 11, CALLING_PARENT, 1)]"
proof -
  have e: "sosAlerts demo_db = []"
    by (simp add: demo_db_def)
  have l: "triggerSos_lookup demo_db 11 (child_principal 11) =
     Inr (demo_child, demo_parent, demo_room, None)"
    by (simp add: triggerSos_lookup_def demo_db_def demo_child_def demo_parent_def demo_room_def
        child_principal_def getUserId_def findById_def findActiveAlert_def)
  have t1: "timers (triggerSos_create demo_db 1000 11 demo_child demo_parent demo_room) =
      [(30000, 100, 20)]"
    by (simp add: triggerSos_create_def demo_db_def demo_room_def Let_def)
  have t2: "timers (triggerSos_create
            (out_db (triggerSos_create demo_db 1000 11 demo_child demo_parent demo_room))
            1001 11 demo_child demo_parent demo_room) = [(30000, 101, 20)]"
    by (simp add: triggerSos_create_def demo_db_def demo_room_def Let_def)
  have st: "map (\<lambda>a. (alert_child a, status a)) (sosAlerts two_triggers_db) =
      [(11, CALLING_PARENT), (11, CALLING_PARENT)]"
    using arg_cong [OF two_triggers_db_eval, of "map (\<lambda>q. (fst (snd q), fst (snd (snd q))))"]
    by (simp add: comp_def)
  have two: "length (activeAlertsOf two_triggers_db 11) = 2"
    unfolding activeAlertsOf_length_via_map st
    by (simp add: isActiveStatus_def)
  have "\<not> (\<forall>c. length (activeAlertsOf two_triggers_db c) \<le> 1)"
    using two by (auto intro: exI [of _ 11])
  then have broken: "\<not> at_most_one_active two_triggers_db"
    by (simp add: at_most_one_active_iff)
  have serial: "map (\<lambda>a. (alert_id a, alert_child a, status a, parentCallAttempts a))
     (sosAlerts (out_db (triggerSos (out_db (triggerSos demo_db 1000 11 (child_principal 11)))
                           1001 11 (child_principal 11)))) =
     [(100, 11, CALLING_PARENT, 1)]"
    unfolding triggerSos_demo
    by (simp add: triggerSos_def demo_db_def demo_child_def demo_room_def child_principal_def
        getUserId_def findById_def findActiveAlert_def isActiveStatus_def Let_def)
  show ?thesis
    using e l two_triggers_db_eval t1 t2 two broken serial by blast
qed

subsection \<open>The parent answers\<close>

lemma find_updateFirst:
  "find P xs = Some a \<Longrightarrow> P (f a) \<Longrightarrow> find P (updateFirst P f xs) = Some (f a)"
  by (induction xs) (auto split: if_splits)

lemma findById_key: "findById key xs i = Some a \<Longrightarrow> key a = i"
  by (auto simp: findById_def find_Some_iff)

lemma ringing_demo:
  "out_db (checkCallStatus (out_db (triggerSos demo_db 1000 11 (child_principal 11))) 31000 100 20) =
   ringing_db"
  unfolding triggerSos_demo
  by (simp add: checkCallStatus_def ringing_db_def ringing_alert_def
      demo_db_def demo_child_def findById_def findByIdAndUpdate_def
      MAX_PARENT_CALL_ATTEMPTS_def Let_def)

lemma ringing_found:
  "findById alert_id (sosAlerts ringing_db) 100 = Some ringing_alert"
  by (simp add: ringing_db_def findById_def ringing_alert_def)

lemma ringing_parent:
  "findById user_id (users ringing_db) (alert_parent ringing_alert) =
     Some \<lparr>user_id = 12, user_role = ROLE_PARENT, user_phoneNumber = Some ''+21612345678''\<rparr>"
  by (simp add: ringing_db_def demo_db_def findById_def ringing_alert_def)

text \<open>What the update does to one entry of the call history.\<close>

lemma markAnswered_explicit:
  "markAnswered =
     (\<lambda>e. if callType e = PARENT \<and> answered e = False
          then e\<lparr>answered := True, call_status := ''answered''\<rparr> else e)"
  by (rule ext) (simp add: markAnswered_def)

lemma markParentAnswered_effect_aux:
  assumes found: "findById alert_id (sosAlerts s) alertId = Some a"
    and parent: "findById user_id (users s) (alert_parent a) = Some p"
  shows "(getUserId u \<noteq> Some (alert_parent a) \<longrightarrow>
            markParentAnswered s now alertId u =
              throw s (ForbiddenException ''Only the parent can mark themselves as answered'')) \<and>
         (getUserId u = Some (alert_parent a) \<longrightarrow>
            returned (markParentAnswered s now alertId u) =
              Inr (Some (a\<lparr>status := PARENT_ANSWERED, resolvedAt := Some now,
                            resolvedBy := Some (alert_parent a),
                            callHistory := map markAnswered (callHistory a)\<rparr>)) \<and>
            findById alert_id (sosAlerts (out_db (markParentAnswered s now alertId u))) alertId =
              Some (a\<lparr>status := PARENT_ANSWERED, resolvedAt := Some now,
                       resolvedBy := Some (alert_parent a),
                       callHistory := map markAnswered (callHistory a)\<rparr>) \<and>
            emitted (markParentAnswered s now alertId u) =
              (if findById child_id (children s) (alert_child a) = None then []
               else [Emit_sos_resolved (alert_child a) alertId now]) \<and>
            timers (markParentAnswered s now alertId u) = [])"
proof -
  have pid: "user_id p = alert_parent a"
    using parent by (rule findById_key)
  have aid: "alert_id a = alertId"
    using found by (rule findById_key)
  have upd: "findById alert_id
       (findByIdAndUpdate alert_id alertId
          (\<lambda>a. a\<lparr>status := PARENT_ANSWERED, resolvedAt := Some now,
                 resolvedBy := Some q,
                 callHistory := map markAnswered (callHistory a)\<rparr>) (sosAlerts s)) alertId =
     Some (a\<lparr>status := PARENT_ANSWERED, resolvedAt := Some now,
              resolvedBy := Some q,
              callHistory := map markAnswered (callHistory a)\<rparr>)" for q
    using found aid unfolding findById_def findByIdAndUpdate_def
    by (intro find_updateFirst) simp_all
  show ?thesis
    using found parent pid upd [of "alert_parent a"]
    by (auto simp: markParentAnswered_def throw_def Let_def split: option.splits)
qed

lemma mixed_found:
  "findById alert_id (sosAlerts mixed_db) 100 = Some mixed_alert"
  by (simp add: mixed_db_def findById_def mixed_alert_def)

lemma mixed_parent:
  "findById user_id (users mixed_db) (alert_parent mixed_alert) =
     Some \<lparr>user_id = 12, user_role = ROLE_PARENT, user_phoneNumber = Some ''+21612345678''\<rparr>"
  by (simp add: mixed_db_def demo_db_def findById_def mixed_alert_def)

text \<open>
  Claim C8, as amended. For a stored alert whose parent record exists,
  \<open>markParentAnswered\<close> throws Forbidden and changes nothing unless the actor's id
  is the alert's parent id. For that actor it returns the updated alert, which is
  also the alert then stored: status \<open>PARENT_ANSWERED\<close>, \<open>resolvedAt\<close> the
  current time, \<open>resolvedBy\<close> the parent id, and a call history of the same
  entries in the same order, in which every entry that was an unanswered \<open>PARENT\<close>
  call has \<open>answered = true\<close> and status \<open>answered\<close> and every other entry is as
  it was. It emits the resolution notification to the child when the child record
  exists, and sets no timer.
\<close>

theorem markParentAnswered_effect:
  assumes found: "findById alert_id (sosAlerts s) alertId = Some a"
    and parent: "findById user_id (users s) (alert_parent a) = Some p"
  shows "(getUserId u \<noteq> Some (alert_parent a) \<longrightarrow>
            markParentAnswered s now alertId u =
              throw s (ForbiddenException ''Only the parent can mark themselves as answered'')) \<and>
         (getUserId u = Some (alert_parent a) \<longrightarrow>
            returned (markParentAnswered s now alertId u) =
              Inr (Some (a\<lparr>status := PARENT_ANSWERED, resolvedAt := Some now,
                            resolvedBy := Some (alert_parent a),
                            callHistory :=
                              map (\<lambda>e. if callType e = PARENT \<and> answered e = False
                                        then e\<lparr>answered := True, call_status := ''answered''\<rparr>
                                        else e)
                                  (callHistory a)\<rparr>)) \<and>
            findById alert_id (sosAlerts (out_db (markParentAnswered s now alertId u))) alertId =
              Some (a\<lparr>status := PARENT_ANSWERED, resolvedAt := Some now,
                       resolvedBy := Some (alert_parent a),
                       callHistory :=
                         map (\<lambda>e. if callType e = PARENT \<and> answered e = False
                                   then e\<lparr>answered := True, call_status := ''answered''\<rparr>
                                   else e)
                             (callHistory a)\<rparr>) \<and>
            emitted (markParentAnswered s now alertId u) =
              (if findById child_id (children s) (alert_child a) = None then []
               else [Emit_sos_resolved (alert_child a) alertId now]) \<and>
            timers (markParentAnswered s now alertId u) = [])"
  using markParentAnswered_effect_aux [OF found parent, of u now]
  unfolding markAnswered_explicit .

theorem markParentAnswered_effect_witness:
  "getUserId (parent_principal 13) \<noteq> Some (alert_parent mixed_alert) \<and>
   markParentAnswered mixed_db 70000 100 (parent_principal 13) =
     throw mixed_db (ForbiddenException ''Only the parent can mark themselves as answered'') \<and>
   getUserId (parent_principal 12) = Some (alert_parent mixed_alert) \<and>
   returned (markParentAnswered mixed_db 70000 100 (parent_principal 12)) =
     Inr (Some (mixed_alert\<lparr>status := PARENT_ANSWERED, resolvedAt := Some 70000,
                  resolvedBy := Some 12,
                  callHistory :=
                    [\<lparr>callSid = SOS_CALL 100, phoneNumber = ''+21612345678'', callType = PARENT,
                      call_status = ''completed'', answered = True, call_timestamp = 1000\<rparr>,
                     \<lparr>callSid = SOS_CALL_RETRY 2, phoneNumber = ''N/A'', callType = PARENT,
                      call_status = ''answered'', answered = True, call_timestamp = 31000\<rparr>,
                     \<lparr>callSid = PHONE_DIALER_196, phoneNumber = ''196'', callType = EMERGENCY,
                      call_status = ''dialer_opened'', answered = False,
                      call_timestamp = 61000\<rparr>]\<rparr>)) \<and>
   emitted (markParentAnswered mixed_db 70000 100 (parent_principal 12)) =
     [Emit_sos_resolved 11 100 70000]"
proof -
  have u13: "getUserId (parent_principal 13) \<noteq> Some (alert_parent mixed_alert)"
    by (simp add: getUserId_def parent_principal_def mixed_alert_def)
  have u12: "getUserId (parent_principal 12) = Some (alert_parent mixed_alert)"
    by (simp add: getUserId_def parent_principal_def mixed_alert_def)
  have c: "findById child_id (children mixed_db) (alert_child mixed_alert) \<noteq> None"
    by (simp add: mixed_db_def demo_db_def demo_child_def findById_def mixed_alert_def)
  have p: "alert_parent mixed_alert = 12" "alert_child mixed_alert = 11"
    by (simp_all add: mixed_alert_def)
  have h: "map (\<lambda>e. if callType e = PARENT \<and> answered e = False
                     then e\<lparr>answered := True, call_status := ''answered''\<rparr> else e)
             (callHistory mixed_alert) =
      [\<lparr>callSid = SOS_CALL 100, phoneNumber = ''+21612345678'', callType = PARENT,
        call_status = ''completed'', answered = True, call_timestamp = 1000\<rparr>,
       \<lparr>callSid = SOS_CALL_RETRY 2, phoneNumber = ''N/A'', callType = PARENT,
        call_status = ''answered'', answered = True, call_timestamp = 31000\<rparr>,
       \<lparr>callSid = PHONE_DIALER_196, phoneNumber = ''196'', callType = EMERGENCY,
        call_status = ''dialer_opened'', answered = False, call_timestamp = 61000\<rparr>]"
    by (simp add: mixed_alert_def)
  show ?thesis
    using u13 u12 c
      markParentAnswered_effect [OF mixed_found mixed_parent, of "parent_principal 13" 70000]
      markParentAnswered_effect [OF mixed_found mixed_parent, of "parent_principal 12" 70000,
        unfolded h]
    by (simp add: p)
qed

text \<open>
  The claim as first stated has only the most recent unanswered \<open>PARENT\<close> entry
  marked. After the trigger and one retry the history holds two such entries, and
  the update marks both.
\<close>

theorem markParentAnswered_marks_every_unanswered_call:
  "map (\<lambda>e. (callType e, answered e)) (callHistory ringing_alert) =
     [(PARENT, False), (PARENT, False)] \<and>
   findById alert_id (sosAlerts ringing_db) 100 = Some ringing_alert \<and>
   (\<exists>a. returned (markParentAnswered ringing_db 40000 100 (parent_principal 12)) = Inr (Some a) \<and>
        map (\<lambda>e. (callType e, answered e, call_status e)) (callHistory a) =
          [(PARENT, True, ''answered''), (PARENT, True, ''answered'')])"
  by (simp add: markParentAnswered_def markAnswered_def ringing_db_def ringing_alert_def
      demo_db_def demo_child_def findById_def findByIdAndUpdate_def getUserId_def
      parent_principal_def Let_def)

subsection \<open>Access control\<close>

text \<open>
  Claim C4. \<open>validateSender\<close> succeeds exactly for the room's child (as a \<open>Child\<close>
  sender), and for a \<open>User\<close> sender that is the room's primary parent, one of its
  invited parents, or a linked parent on the record of the room's child. Every
  other pair of sender model and sender id is refused with a Forbidden error.
\<close>

theorem validateSender_accepts_exactly:
  "(validateSender s r senderModel senderId = Inr ()) =
     ((senderModel = Child \<and> senderId = room_child r) \<or>
      (senderModel = User \<and>
         (senderId = room_parent r \<or> senderId \<in> set (invitedParents r) \<or>
          (\<exists>c. findById child_id (children s) (room_child r) = Some c \<and>
               senderId \<in> set (linkedParents c))))) \<and>
   (validateSender s r senderModel senderId \<noteq> Inr () \<longrightarrow>
      (\<exists>m. validateSender s r senderModel senderId = Inl (ForbiddenException m)))"
  by (cases senderModel)
     (auto simp: validateSender_def getChildId_def list_ex_iff Let_def split: option.splits)

theorem validateSender_accepts_exactly_witness:
  "validateSender demo_db demo_room Child 11 = Inr () \<and>
   validateSender demo_db demo_room User 12 = Inr () \<and>
   validateSender demo_db demo_room User 13 = Inr () \<and>
   validateSender demo_db demo_room User 15 = Inr () \<and>
   validateSender demo_db demo_room Child 12 =
     Inl (ForbiddenException ''senderId must match the child in this room'') \<and>
   validateSender demo_db demo_room User 11 =
     Inl (ForbiddenException
       ''senderId must be the main parent, an invited parent, or a linked parent of the child in this room'') \<and>
   validateSender demo_db demo_room User 17 =
     Inl (ForbiddenException
       ''senderId must be the main parent, an invited parent, or a linked parent of the child in this room'')"
  using validateSender_accepts_exactly [of demo_db demo_room User 17]
    validateSender_accepts_exactly [of demo_db demo_room User 15]
  by (simp add: validateSender_def demo_db_def demo_room_def demo_child_def getChildId_def
      findById_def Let_def)

text \<open>
  Claim C5. A parent principal is a principal that is not a child and not an
  administrator. Whenever \<open>assertRoomAccess\<close> lets such a principal into a room,
  \<open>isRoomParticipant\<close> accepts the same id as a \<open>User\<close> sender of that room: no
  room and parent exist where the participant check rejects and the access check
  accepts.
\<close>

theorem parent_access_implies_participant:
  assumes "p_type u \<noteq> ''child''"
    and "p_role u \<noteq> Some ROLE_ADMIN"
    and "getUserId u = Some uid"
    and "assertRoomAccess r u = Inr ()"
  shows "isRoomParticipant r User uid"
  using assms
  by (auto simp: assertRoomAccess_def isRoomParticipant_def list_ex_iff Let_def split: if_splits)

theorem parent_access_implies_participant_witness:
  "p_type (parent_principal 13) \<noteq> ''child'' \<and>
   p_role (parent_principal 13) \<noteq> Some ROLE_ADMIN \<and>
   getUserId (parent_principal 13) = Some 13 \<and>
   assertRoomAccess demo_room (parent_principal 13) = Inr () \<and>
   isRoomParticipant demo_room User 13"
proof -
  have a: "p_type (parent_principal 13) \<noteq> ''child''"
    and b: "p_role (parent_principal 13) \<noteq> Some ROLE_ADMIN"
    and c: "getUserId (parent_principal 13) = Some 13"
    by (simp_all add: parent_principal_def getUserId_def)
  have d: "assertRoomAccess demo_room (parent_principal 13) = Inr ()"
    by (simp add: assertRoomAccess_def parent_principal_def getUserId_def demo_room_def)
  show ?thesis
    using a b c d parent_access_implies_participant [OF a b c d] by simp
qed

text \<open>
  On parent principals the two checks agree in both directions. The admin bypass
  is the one place where they differ: an administrator who is no member of the
  room passes \<open>assertRoomAccess\<close> and is no participant.
\<close>

lemma parent_access_iff_participant:
  assumes "p_type u \<noteq> ''child''"
    and "p_role u \<noteq> Some ROLE_ADMIN"
    and "getUserId u = Some uid"
  shows "(assertRoomAccess r u = Inr ()) = isRoomParticipant r User uid"
  using assms
  by (auto simp: assertRoomAccess_def isRoomParticipant_def list_ex_iff Let_def split: if_splits)

lemma admin_access_without_participation:
  "assertRoomAccess demo_room (admin_principal 19) = Inr () \<and>
   \<not> isRoomParticipant demo_room User 19"
  by (simp add: assertRoomAccess_def isRoomParticipant_def admin_principal_def demo_room_def)

subsection \<open>The message pipeline\<close>

lemma assertRoomAccess_error_Forbidden:
  "getUserId u = Some uid \<Longrightarrow> assertRoomAccess r u = Inl e \<Longrightarrow> \<exists>m. e = ForbiddenException m"
  by (auto simp: assertRoomAccess_def Let_def split: if_splits)

text \<open>
  Claim C7. For a stored message whose room exists and a caller who carries an id,
  \<open>deleteMessage\<close> succeeds exactly when the caller passes \<open>assertRoomAccess\<close>,
  the caller's id is the message's sender id and the caller's actor type matches
  the message's sender model. A caller whose id or actor type does not match (an
  administrator included) gets a Forbidden error, and the store is left as it was,
  so the message is still there. On success the message is removed.
\<close>

theorem deleteMessage_only_author:
  assumes msg: "findById msg_id (messages s) messageId = Some m"
    and room: "findById room_id (rooms s) (msg_room m) = Some r"
    and uid: "getUserId u = Some uid"
  shows
    "((del_returned (deleteMessage s now messageId u) = Inr ()) =
        (assertRoomAccess r u = Inr () \<and> uid = msg_senderId m \<and>
         ((p_type u = ''child'' \<and> msg_senderModel m = Child) \<or>
          (p_type u \<noteq> ''child'' \<and> msg_senderModel m = User)))) \<and>
     (\<not> (uid = msg_senderId m \<and>
         ((p_type u = ''child'' \<and> msg_senderModel m = Child) \<or>
          (p_type u \<noteq> ''child'' \<and> msg_senderModel m = User))) \<longrightarrow>
        (\<exists>e. del_returned (deleteMessage s now messageId u) = Inl (ForbiddenException e)) \<and>
        del_db (deleteMessage s now messageId u) = s \<and>
        del_files (deleteMessage s now messageId u) = []) \<and>
     (del_returned (deleteMessage s now messageId u) = Inr () \<longrightarrow>
        messages (del_db (deleteMessage s now messageId u)) =
          removeFirst (\<lambda>x. msg_id x = messageId) (messages s))"
proof (cases "assertRoomAccess r u")
  case (Inl e)
  then obtain e' where "e = ForbiddenException e'"
    using assertRoomAccess_error_Forbidden [OF uid] by blast
  then show ?thesis
    using msg room Inl by (simp add: deleteMessage_def del_throw_def)
next
  case (Inr x)
  then show ?thesis
    using msg room uid
    by (auto simp: deleteMessage_def del_throw_def Let_def split: option.splits)
qed

lemma findById_setLastMessage:
  "findById room_id rs i = Some r \<Longrightarrow>
   findById room_id (setLastMessage i lm rs) i = Some (r\<lparr>lastMessage := lm\<rparr>)"
  unfolding findById_def setLastMessage_def findByIdAndUpdate_def
  by (rule find_updateFirst) (auto simp: find_Some_iff)

lemma sendText_demo:
  "sendText demo_db 5000 hello_dto (parent_principal 13) = Inr (hello_msg, chat_db)"
  by (simp add: sendText_def hello_dto_def hello_msg_def chat_db_def demo_db_def demo_room_def
      demo_child_def parent_principal_def assertRoomAccess_def validateSender_def getUserId_def
      getChildId_def findById_def setLastMessage_def findByIdAndUpdate_def Let_def)

theorem deleteMessage_only_author_witness:
  "findById msg_id (messages chat_db) 100 = Some hello_msg \<and>
   del_returned (deleteMessage chat_db 8000 100 (admin_principal 19)) =
     Inl (ForbiddenException ''You can only delete your own messages'') \<and>
   del_db (deleteMessage chat_db 8000 100 (admin_principal 19)) = chat_db \<and>
   del_returned (deleteMessage chat_db 8000 100 (parent_principal 12)) =
     Inl (ForbiddenException ''You can only delete your own messages'') \<and>
   del_returned (deleteMessage chat_db 8000 100 (child_principal 13)) =
     Inl (ForbiddenException ''You can only access your own room'') \<and>
   del_returned (deleteMessage chat_db 8000 100 (parent_principal 13)) = Inr () \<and>
   messages (del_db (deleteMessage chat_db 8000 100 (parent_principal 13))) = [] \<and>
   map lastMessage (rooms (del_db (deleteMessage chat_db 8000 100 (parent_principal 13)))) = [None]"
proof -
  have m: "findById msg_id (messages chat_db) 100 = Some hello_msg"
    by (simp add: chat_db_def findById_def hello_msg_def)
  have r: "findById room_id (rooms chat_db) (msg_room hello_msg) =
      Some (demo_room\<lparr>lastMessage :=
                 Some \<lparr>lm_text = Some ''hello'', lm_senderModel = User, lm_senderId = 13,
                       lm_createdAt = 5000\<rparr>\<rparr>)"
    by (simp add: chat_db_def findById_def hello_msg_def demo_room_def)
  have u: "getUserId (admin_principal 19) = Some 19"
    by (simp add: admin_principal_def getUserId_def)
  have ev: "deleteMessage chat_db 8000 100 (parent_principal 13) =
      \<lparr>del_db = chat_db\<lparr>rooms := [demo_room], messages := []\<rparr>, del_files = [], del_returned = Inr ()\<rparr>"
    by (simp add: deleteMessage_def chat_db_def hello_msg_def demo_db_def demo_room_def
        parent_principal_def assertRoomAccess_def getUserId_def findById_def latestMessage_def
        setLastMessage_def findByIdAndUpdate_def Let_def)
  have f12: "del_returned (deleteMessage chat_db 8000 100 (parent_principal 12)) =
     Inl (ForbiddenException ''You can only delete your own messages'')"
    by (simp add: deleteMessage_def del_throw_def chat_db_def hello_msg_def demo_db_def demo_room_def
        parent_principal_def assertRoomAccess_def getUserId_def findById_def Let_def)
  have f13: "del_returned (deleteMessage chat_db 8000 100 (child_principal 13)) =
     Inl (ForbiddenException ''You can only access your own room'')"
    by (simp add: deleteMessage_def del_throw_def chat_db_def hello_msg_def demo_db_def demo_room_def
        child_principal_def assertRoomAccess_def getUserId_def getChildId_def findById_def Let_def)
  have f19: "del_returned (deleteMessage chat_db 8000 100 (admin_principal 19)) =
     Inl (ForbiddenException ''You can only delete your own messages'')"
    by (simp add: deleteMessage_def del_throw_def chat_db_def hello_msg_def demo_db_def demo_room_def
        admin_principal_def assertRoomAccess_def getUserId_def findById_def Let_def)
  have s19: "19 \<noteq> msg_senderId hello_msg"
    by (simp add: hello_msg_def)
  have "del_db (deleteMessage chat_db 8000 100 (admin_principal 19)) = chat_db"
    using deleteMessage_only_author [OF m r u, of 8000] s19 by simp
  then show ?thesis
    using m f12 f13 f19 by (simp add: ev demo_room_def)
qed

text \<open>
  Claim C10. A successful \<open>sendText\<close> changes the room collection only by setting
  the \<open>lastMessage\<close> of the room it was sent to: the sent text, the sender model,
  the sender id and the current time. A successful \<open>sendAudio\<close> does the same with
  the fixed text \<open>[Audio]\<close> in place of any audio content. A successful
  \<open>sendSignal\<close> leaves the whole room collection as it was.
\<close>

theorem lastMessage_projection:
  "(case sendText s now dto u of
      Inl e \<Rightarrow> True
    | Inr (msg, s') \<Rightarrow>
        rooms s' = setLastMessage (t_roomId dto)
          (Some \<lparr>lm_text = t_text dto, lm_senderModel = t_senderModel dto,
                 lm_senderId = t_senderId dto, lm_createdAt = now\<rparr>) (rooms s) \<and>
        (\<exists>r. findById room_id (rooms s') (t_roomId dto) = Some r \<and>
             lastMessage r = Some \<lparr>lm_text = t_text dto, lm_senderModel = t_senderModel dto,
                 lm_senderId = t_senderId dto, lm_createdAt = now\<rparr>)) \<and>
   (case sendAudio s now adto u of
      Inl e \<Rightarrow> True
    | Inr (msg, s') \<Rightarrow>
        rooms s' = setLastMessage (a_roomId adto)
          (Some \<lparr>lm_text = Some ''[Audio]'', lm_senderModel = a_senderModel adto,
                 lm_senderId = a_senderId adto, lm_createdAt = now\<rparr>) (rooms s) \<and>
        (\<exists>r. findById room_id (rooms s') (a_roomId adto) = Some r \<and>
             lastMessage r = Some \<lparr>lm_text = Some ''[Audio]'', lm_senderModel = a_senderModel adto,
                 lm_senderId = a_senderId adto, lm_createdAt = now\<rparr>)) \<and>
   (case sendSignal s now sdto u of
      Inl e \<Rightarrow> True
    | Inr (msg, s') \<Rightarrow> rooms s' = rooms s)"
proof (intro conjI)
  show "case sendText s now dto u of
      Inl e \<Rightarrow> True
    | Inr (msg, s') \<Rightarrow>
        rooms s' = setLastMessage (t_roomId dto)
          (Some \<lparr>lm_text = t_text dto, lm_senderModel = t_senderModel dto,
                 lm_senderId = t_senderId dto, lm_createdAt = now\<rparr>) (rooms s) \<and>
        (\<exists>r. findById room_id (rooms s') (t_roomId dto) = Some r \<and>
             lastMessage r = Some \<lparr>lm_text = t_text dto, lm_senderModel = t_senderModel dto,
                 lm_senderId = t_senderId dto, lm_createdAt = now\<rparr>)"
  proof (cases "sendText s now dto u")
    case (Inl e)
    then show ?thesis by simp
  next
    case (Inr res)
    obtain msg s' where res: "res = (msg, s')" by (cases res) auto
    from Inr res obtain r where r: "findById room_id (rooms s) (t_roomId dto) = Some r"
      by (auto simp: sendText_def split: option.splits)
    have rid: "room_id r = t_roomId dto"
      using r by (rule findById_key)
    have rs: "rooms s' = setLastMessage (t_roomId dto)
          (Some \<lparr>lm_text = t_text dto, lm_senderModel = t_senderModel dto,
                 lm_senderId = t_senderId dto, lm_createdAt = now\<rparr>) (rooms s)"
      using Inr res r rid by (auto simp: sendText_def Let_def split: option.splits sum.splits)
    show ?thesis
      using Inr res rs findById_setLastMessage [OF r] by simp
  qed
next
  show "case sendAudio s now adto u of
      Inl e \<Rightarrow> True
    | Inr (msg, s') \<Rightarrow>
        rooms s' = setLastMessage (a_roomId adto)
          (Some \<lparr>lm_text = Some ''[Audio]'', lm_senderModel = a_senderModel adto,
                 lm_senderId = a_senderId adto, lm_createdAt = now\<rparr>) (rooms s) \<and>
        (\<exists>r. findById room_id (rooms s') (a_roomId adto) = Some r \<and>
             lastMessage r = Some \<lparr>lm_text = Some ''[Audio]'', lm_senderModel = a_senderModel adto,
                 lm_senderId = a_senderId adto, lm_createdAt = now\<rparr>)"
  proof (cases "sendAudio s now adto u")
    case (Inl e)
    then show ?thesis by simp
  next
    case (Inr res)
    obtain msg s' where res: "res = (msg, s')" by (cases res) auto
    from Inr res obtain r where r: "findById room_id (rooms s) (a_roomId adto) = Some r"
      by (auto simp: sendAudio_def split: option.splits)
    have rid: "room_id r = a_roomId adto"
      using r by (rule findById_key)
    have rs: "rooms s' = setLastMessage (a_roomId adto)
          (Some \<lparr>lm_text = Some ''[Audio]'', lm_senderModel = a_senderModel adto,
                 lm_senderId = a_senderId adto, lm_createdAt = now\<rparr>) (rooms s)"
      using Inr res r rid by (auto simp: sendAudio_def Let_def split: option.splits sum.splits)
    show ?thesis
      using Inr res rs findById_setLastMessage [OF r] by simp
  qed
next
  show "case sendSignal s now sdto u of
      Inl e \<Rightarrow> True
    | Inr (msg, s') \<Rightarrow> rooms s' = rooms s"
    by (auto simp: sendSignal_def Let_def split: option.splits if_splits sum.splits)
qed

theorem lastMessage_projection_witness:
  "sendText demo_db 5000 hello_dto (parent_principal 13) = Inr (hello_msg, chat_db) \<and>
   map lastMessage (rooms chat_db) =
     [Some \<lparr>lm_text = Some ''hello'', lm_senderModel = User, lm_senderId = 13, lm_createdAt = 5000\<rparr>] \<and>
   (\<exists>msg s'. sendAudio demo_db 5000 clip_dto (parent_principal 13) = Inr (msg, s') \<and>
      map lastMessage (rooms s') =
        [Some \<lparr>lm_text = Some ''[Audio]'', lm_senderModel = Child, lm_senderId = 11,
               lm_createdAt = 5000\<rparr>]) \<and>
   (\<exists>msg s'. sendSignal demo_db 5000 offer_dto (parent_principal 13) = Inr (msg, s') \<and>
      msg_type msg = CALL_OFFER \<and> rooms s' = rooms demo_db)"
proof -
  have au: "\<exists>msg s'. sendAudio demo_db 5000 clip_dto (parent_principal 13) = Inr (msg, s') \<and>
      map lastMessage (rooms s') =
        [Some \<lparr>lm_text = Some ''[Audio]'', lm_senderModel = Child, lm_senderId = 11,
               lm_createdAt = 5000\<rparr>]"
    by (simp add: sendAudio_def clip_dto_def demo_db_def demo_room_def
      demo_child_def parent_principal_def assertRoomAccess_def validateSender_def getUserId_def
      getChildId_def findById_def setLastMessage_def findByIdAndUpdate_def Let_def)
  have sg: "\<exists>msg s'. sendSignal demo_db 5000 offer_dto (parent_principal 13) = Inr (msg, s') \<and>
      msg_type msg = CALL_OFFER \<and> rooms s' = rooms demo_db"
    by (simp add: sendSignal_def offer_dto_def demo_db_def demo_room_def
      signalType_def truthy_def isRoomParticipant_def getChildId_def findById_def Let_def)
  have lm: "map lastMessage (rooms chat_db) =
     [Some \<lparr>lm_text = Some ''hello'', lm_senderModel = User, lm_senderId = 13, lm_createdAt = 5000\<rparr>]"
    by (simp add: chat_db_def)
  show ?thesis
    using lastMessage_projection [where s = demo_db and now = 5000 and dto = hello_dto
        and u = "parent_principal 13" and adto = clip_dto and sdto = offer_dto]
      sendText_demo au sg lm
    by blast
qed

subsection \<open>The gateway\<close>





text \<open>
  Without a principal on the socket, \<open>joinRoom\<close> (given a room id), \<open>sendText\<close>
  and \<open>signal\<close> answer \<open>Unauthorized\<close>, change nothing and emit nothing.
\<close>

lemma unauthenticated_rejected:
  assumes "data_user client = None"
  shows "(j_roomId d \<noteq> None \<or> j_room d \<noteq> None \<longrightarrow>
           onJoinRoom g client d =
             \<lparr>gw_after = g, gw_emitted = [], gw_ack = Ack_error ''Unauthorized''\<rparr>) \<and>
         onSendText g now client body =
           \<lparr>gw_after = g, gw_emitted = [], gw_ack = Ack_error ''Unauthorized''\<rparr> \<and>
         onSignal g now client sig =
           \<lparr>gw_after = g, gw_emitted = [], gw_ack = Ack_error ''Unauthorized''\<rparr>"
  using assms by (auto simp: onJoinRoom_def onSendText_def onSignal_def split: option.splits)

text \<open>
  Claim C9 asks the same of \<open>leaveRoom\<close>. \<open>onLeaveRoom\<close> does not look at the
  socket's principal: for a socket that connected without a token it answers
  \<open>ok\<close> and tells the room's subscribers that the socket has left.
\<close>

theorem onLeaveRoom_unauthenticated_accepted:
  "handleConnection verify \<lparr>sock_id = 7, data_user = None\<rparr> None = anonymous_socket \<and>
   data_user anonymous_socket = None \<and>
   onLeaveRoom demo_gateway anonymous_socket 20 =
     \<lparr>gw_after = demo_gateway,
      gw_emitted = [To_room 20 (presence 7 ''left'' 20)],
      gw_ack = Ack_ok 20\<rparr>"
  by (simp add: handleConnection_def anonymous_socket_def onLeaveRoom_def demo_gateway_def)

end
